theory Spec2Isabelle
  imports Complex_Main "HOL-Library.Word"
begin

section \<open>Platform values used by the live session\<close>

text \<open>
  The component \<open>LiveSession\<close> (src/components/LiveSession.tsx) keeps its mutable state in
  React state cells and ref cells and reacts to callbacks of the Web Audio API and of the
  live transport. The model below is a record of those cells and one function per
  callback. Times and samples are JavaScript numbers; they are modelled as reals.
\<close>

datatype contextState = Running | Closed

text \<open>
  A Web Audio \<open>AudioBuffer\<close>: a pair of its length in sample frames and its sample rate.
  The Web Audio API builds no buffer of length 0 or of sample rate 0 (\<open>createBuffer\<close> throws
  \<open>NotSupportedError\<close>), so the type holds none. The \<open>duration\<close> attribute is the length
  divided by the sample rate.
\<close>

typedef AudioBuffer = "{(len :: nat, r :: nat). 1 \<le> len \<and> 1 \<le> r}"
  by (rule exI [of _ "(1, 1)"]) simp

setup_lifting type_definition_AudioBuffer

lift_definition frameLength :: "AudioBuffer \<Rightarrow> nat" is fst .

lift_definition sampleRate :: "AudioBuffer \<Rightarrow> nat" is snd .

definition duration :: "AudioBuffer \<Rightarrow> real" where
  "duration b = real (frameLength b) / real (sampleRate b)"

text \<open>An \<open>AudioBufferSourceNode\<close> after \<open>start(when)\<close>: its buffer, the start time, and whether
  \<open>stop()\<close> has been called on it.\<close>

record AudioBufferSourceNode =
  buffer :: AudioBuffer
  startedAt :: real
  stopped :: bool

text \<open>The helper \<open>createPcmBlob\<close> of services/audioUtils is missing from the sources; its
  result on a frame of samples is kept as an uninterpreted value.\<close>

datatype pcmBlob = CreatePcmBlob "real list"

datatype release = SessionClose | InputContextClose | OutputContextClose | CancelAnimationFrame

text \<open>What a call of the platform or of a helper can throw: the codec's error for a malformed
  chunk, Web Audio's refusal to build a buffer of no frames, a failing release.\<close>

datatype error = MalformedAudioError | NotSupportedError | ReleaseError release

datatype effect =
    SetVolume "real option"
  | SendRealtimeInput pcmBlob
  | Close release
  | OnCloseProp

datatype promiseState = Pending | Fulfilled

datatype status = Initializing | Connected | Disconnected | ErrorOccurred | FailedToConnect

text \<open>The two fields of a \<open>LiveServerMessage\<close> the handler reads:
  \<open>serverContent?.modelTurn?.parts?.[0]?.inlineData?.data\<close> and \<open>serverContent?.interrupted\<close>.\<close>

record message =
  inlineData :: "string option"
  interrupted :: bool

section \<open>The state of the component\<close>

text \<open>
  \<open>sourcesRef\<close> is a JavaScript \<open>Set\<close> of source nodes: a duplicate-free list in insertion
  order, holding the index of each node in the store \<open>nodes\<close>. \<open>capturedIsMuted\<close> is the value
  of \<open>isMuted\<close> seen by the closures that the mount effect creates. \<open>pendingSends\<close> are the
  frames handed to \<open>sessionPromise.then\<close> while the promise is still pending. \<open>awaiting\<close>
  holds, in order of arrival, the messages whose handler is suspended at
  \<open>await decodeAudioData\<close> (line 104). \<open>effects\<close> records, in order, the calls that leave
  the component.
\<close>

record session =
  isConnected :: bool
  isMuted :: bool
  statusText :: status
  inputAudioContextRef :: "contextState option"
  outputAudioContextRef :: "contextState option"
  nextStartTimeRef :: real
  sourcesRef :: "nat list"
  sessionRef :: bool
  animationFrameRef :: "nat option"
  mounted :: bool
  capturedIsMuted :: bool
  processorInstalled :: bool
  micStream :: bool
  sessionPromise :: "promiseState option"
  pendingSends :: "pcmBlob list"
  awaiting :: "message list"
  nodes :: "AudioBufferSourceNode list"
  effects :: "effect list"

definition initial :: session where
  "initial = \<lparr> isConnected = False, isMuted = False, statusText = Initializing,
     inputAudioContextRef = None, outputAudioContextRef = None,
     nextStartTimeRef = 0, sourcesRef = [], sessionRef = False,
     animationFrameRef = None, mounted = False, capturedIsMuted = False,
     processorInstalled = False, micStream = False, sessionPromise = None,
     pendingSends = [], awaiting = [], nodes = [], effects = [] \<rparr>"

text \<open>The mount effect (lines 46-172) runs once: it sets \<open>mounted\<close>, creates both audio
  contexts, asks for the microphone and, when that is granted, connects. Its closures see
  the \<open>isMuted\<close> of the render that ran the effect.\<close>

definition startSession :: "bool \<Rightarrow> session \<Rightarrow> session" where
  "startSession granted s =
     (let s1 = s\<lparr> mounted := True, capturedIsMuted := isMuted s,
                  inputAudioContextRef := Some Running,
                  outputAudioContextRef := Some Running \<rparr>
      in if granted then s1\<lparr> micStream := True, sessionPromise := Some Pending \<rparr>
         else s1\<lparr> statusText := FailedToConnect \<rparr>)"

section \<open>Playback scheduling (onmessage, lines 95-128)\<close>

definition Set_add :: "nat \<Rightarrow> nat list \<Rightarrow> nat list" where
  "Set_add x xs = (if x \<in> set xs then xs else xs @ [x])"

definition Set_delete :: "nat \<Rightarrow> nat list \<Rightarrow> nat list" where
  "Set_delete x xs = removeAll x xs"

text \<open>\<open>sourcesRef.current.forEach(src => src.stop())\<close>\<close>

fun stopAll :: "nat list \<Rightarrow> AudioBufferSourceNode list \<Rightarrow> AudioBufferSourceNode list" where
  "stopAll [] ns = ns"
| "stopAll (i # is) ns =
     stopAll is (if i < length ns then ns[i := (ns ! i)\<lparr> stopped := True \<rparr>] else ns)"

text \<open>Lines 124-126.\<close>

definition interrupt :: "session \<Rightarrow> session" where
  "interrupt s = s\<lparr> nodes := stopAll (sourcesRef s) (nodes s),
                    sourcesRef := [],
                    nextStartTimeRef := 0 \<rparr>"

text \<open>Line 102, before the await:
  \<open>nextStartTimeRef.current = Math.max(nextStartTimeRef.current, ctx.currentTime)\<close>.\<close>

definition anchorCursor :: "real \<Rightarrow> session \<Rightarrow> session" where
  "anchorCursor now s = s\<lparr> nextStartTimeRef := max (nextStartTimeRef s) now \<rparr>"

text \<open>Lines 111-119, the part of the handler after the await: create the source, start it
  at the cursor as it stands now, advance the cursor by the buffer's duration, add the source
  to the set.\<close>

definition startSource :: "AudioBuffer \<Rightarrow> session \<Rightarrow> session" where
  "startSource buf s =
     (let source = length (nodes s);
          s1 = s\<lparr> nodes := nodes s @
                 [\<lparr> buffer = buf, startedAt = nextStartTimeRef s, stopped = False \<rparr>] \<rparr>;
          s2 = s1\<lparr> nextStartTimeRef := nextStartTimeRef s1 + duration buf \<rparr>
      in s2\<lparr> sourcesRef := Set_add source (sourcesRef s2) \<rparr>)"

text \<open>The listener of line 114: \<open>sourcesRef.current.delete(source)\<close>.\<close>

definition ended :: "nat \<Rightarrow> session \<Rightarrow> session" where
  "ended source s = s\<lparr> sourcesRef := Set_delete source (sourcesRef s) \<rparr>"

text \<open>A JavaScript string is truthy unless it is undefined or empty.\<close>

definition truthy :: "string option \<Rightarrow> bool" where
  "truthy d = (case d of None \<Rightarrow> False | Some x \<Rightarrow> x \<noteq> [])"

text \<open>
  The handler of an inbound message is an async function with one \<open>await\<close>, so it runs in
  two parts with other events of the component in between. The first part (lines 96-104)
  tests \<open>mounted\<close>; for a message with an audio payload it raises the cursor to the clock
  reading \<open>now\<close> (\<open>ctx.currentTime\<close>) and suspends at \<open>await decodeAudioData\<close>; for a message
  without one it goes on to the interruption block (lines 123-127) at once.
\<close>

definition onmessage :: "real \<Rightarrow> message \<Rightarrow> session \<Rightarrow> session" where
  "onmessage now msg s =
     (if \<not> mounted s then s
      else if truthy (inlineData msg) \<and> outputAudioContextRef s \<noteq> None
           then (anchorCursor now s)\<lparr> awaiting := awaiting s @ [msg] \<rparr>
           else if interrupted msg then interrupt s else s)"

text \<open>
  The second part (lines 104-127) runs when the decode has settled, in the state the
  component is in by then. A decode that throws rejects the handler there; otherwise the
  source is started and the interruption block follows. \<open>Inl (e, s)\<close> is a handler that
  rejected with \<open>e\<close>, leaving the state \<open>s\<close>.
\<close>

definition afterDecode :: "error + AudioBuffer \<Rightarrow> message \<Rightarrow> session \<Rightarrow> (error \<times> session) + session" where
  "afterDecode r msg s =
     (case r of
        Inl e \<Rightarrow> Inl (e, s)
      | Inr audioBuffer \<Rightarrow>
          (let s2 = startSource audioBuffer s
           in Inr (if interrupted msg then interrupt s2 else s2)))"

text \<open>
  The decode of the \<open>k\<close>-th suspended handler settles. \<open>decodeAudioData\<close> (with
  \<open>base64ToUint8Array\<close>) belongs to services/audioUtils, which is missing from the sources:
  it is a parameter that either throws or yields a buffer. A throw of
  \<open>base64ToUint8Array\<close>, which rejects the handler before it suspends, leaves the same
  state as a decode that rejects. Nothing in the component orders the decodes, so any
  suspended handler may be the next to resume.
\<close>

definition decoded ::
  "(string \<Rightarrow> error + AudioBuffer) \<Rightarrow> nat \<Rightarrow> session \<Rightarrow> (error \<times> session) + session" where
  "decoded decodeAudioData k s =
     (if k < length (awaiting s)
      then (let msg = awaiting s ! k;
                s1 = s\<lparr> awaiting := take k (awaiting s) @ drop (Suc k) (awaiting s) \<rparr>
            in afterDecode (decodeAudioData (the (inlineData msg))) msg s1)
      else Inr s)"

text \<open>
  A handler that runs from its first line to its end with no other event in between: the
  first part and, when it has suspended, the second part for the handler just suspended.
\<close>

definition handled ::
  "(string \<Rightarrow> error + AudioBuffer) \<Rightarrow> real \<Rightarrow> message \<Rightarrow> session \<Rightarrow> (error \<times> session) + session" where
  "handled decodeAudioData now msg s =
     (let s1 = onmessage now msg s
      in if length (awaiting s1) = Suc (length (awaiting s))
         then decoded decodeAudioData (length (awaiting s)) s1
         else Inr s1)"

section \<open>Capture (onopen, lines 66-94)\<close>

text \<open>Lines 81-84. For an empty frame JavaScript computes \<open>0 / 0\<close>, a NaN, written \<open>None\<close>.\<close>

definition volumeOf :: "real list \<Rightarrow> real option" where
  "volumeOf inputData =
     (if inputData = [] then None
      else (let sum = foldl (\<lambda>sum x. sum + x * x) 0 inputData;
                rms = sqrt (sum / real (length inputData))
            in Some (min (rms * 5) 1)))"

text \<open>\<open>sessionPromise.then(session => session.sendRealtimeInput({ media: pcmBlob }))\<close>\<close>

definition thenSend :: "pcmBlob \<Rightarrow> session \<Rightarrow> session" where
  "thenSend pcmBlob s =
     (if sessionPromise s = Some Fulfilled
      then s\<lparr> effects := effects s @ [SendRealtimeInput pcmBlob] \<rparr>
      else s\<lparr> pendingSends := pendingSends s @ [pcmBlob] \<rparr>)"

definition onaudioprocess :: "real list \<Rightarrow> session \<Rightarrow> session" where
  "onaudioprocess inputData s =
     (if capturedIsMuted s then s
      else thenSend (CreatePcmBlob inputData)
             (s\<lparr> effects := effects s @ [SetVolume (volumeOf inputData)] \<rparr>))"

definition onopen :: "session \<Rightarrow> session" where
  "onopen s =
     (if \<not> mounted s then s
      else s\<lparr> isConnected := True, statusText := Connected, processorInstalled := True \<rparr>)"

text \<open>The connect promise is fulfilled: line 155 stores the session, then the sends queued
  on the promise run in order.\<close>

definition resolved :: "session \<Rightarrow> session" where
  "resolved s =
     (if sessionPromise s = Some Pending
      then s\<lparr> sessionPromise := Some Fulfilled, sessionRef := True,
               effects := effects s @ map SendRealtimeInput (pendingSends s),
               pendingSends := [] \<rparr>
      else s)"

section \<open>Teardown (disconnect, lines 29-44)\<close>

definition andThen ::
  "(error \<times> session) + session \<Rightarrow> (session \<Rightarrow> (error \<times> session) + session)
     \<Rightarrow> (error \<times> session) + session" where
  "andThen r f = (case r of Inl x \<Rightarrow> Inl x | Inr s \<Rightarrow> f s)"

text \<open>One release call. \<open>throws r\<close> says whether the platform's call \<open>r\<close> throws.\<close>

definition callRelease :: "(release \<Rightarrow> bool) \<Rightarrow> release \<Rightarrow> session \<Rightarrow> (error \<times> session) + session" where
  "callRelease throws r s =
     (let s1 = s\<lparr> effects := effects s @ [Close r] \<rparr>
      in if throws r then Inl (ReleaseError r, s1)
         else Inr (case r of
                     InputContextClose \<Rightarrow> s1\<lparr> inputAudioContextRef := Some Closed \<rparr>
                   | OutputContextClose \<Rightarrow> s1\<lparr> outputAudioContextRef := Some Closed \<rparr>
                   | _ \<Rightarrow> s1))"

definition disconnect :: "(release \<Rightarrow> bool) \<Rightarrow> session \<Rightarrow> (error \<times> session) + session" where
  "disconnect throws s =
     andThen (if sessionRef s then callRelease throws SessionClose s else Inr s) (\<lambda>s1.
     andThen (if inputAudioContextRef s1 \<noteq> None
              then callRelease throws InputContextClose s1 else Inr s1) (\<lambda>s2.
     andThen (if outputAudioContextRef s2 \<noteq> None
              then callRelease throws OutputContextClose s2 else Inr s2) (\<lambda>s3.
     andThen (if animationFrameRef s3 \<noteq> None \<and> animationFrameRef s3 \<noteq> Some 0
              then callRelease throws CancelAnimationFrame s3 else Inr s3) (\<lambda>s4.
     Inr (s4\<lparr> isConnected := False, effects := effects s4 @ [OnCloseProp] \<rparr>)))))"

section \<open>The component as a transition system\<close>

datatype event =
    OnOpen
  | Resolved
  | AudioProcess "real list"
  | OnMessage real message
  | Decoded nat
  | Ended nat
  | ToggleMute
  | Disconnect
  | Unmount
  | OnCloseEvent
  | OnErrorEvent

text \<open>An exception that escapes an event handler ends the handler; the state stays as it
  was at the throw.\<close>

definition stateOf :: "(error \<times> session) + session \<Rightarrow> session" where
  "stateOf r = (case r of Inl (e, s) \<Rightarrow> s | Inr s \<Rightarrow> s)"

text \<open>
  The transport callbacks exist once \<open>ai.live.connect\<close> has been called, the audio callback
  once \<open>onopen\<close> has installed it, the \<open>ended\<close> listener on the nodes created so far.
  A suspended handler resumes whatever has happened to the component since it suspended:
  it does not test \<open>mounted\<close> again.
\<close>

definition step ::
  "(string \<Rightarrow> error + AudioBuffer) \<Rightarrow> (release \<Rightarrow> bool) \<Rightarrow> event \<Rightarrow> session \<Rightarrow> session" where
  "step decodeAudioData throws e s =
     (case e of
        OnOpen \<Rightarrow> if sessionPromise s \<noteq> None then onopen s else s
      | Resolved \<Rightarrow> resolved s
      | AudioProcess inputData \<Rightarrow> if processorInstalled s then onaudioprocess inputData s else s
      | OnMessage now msg \<Rightarrow> if sessionPromise s \<noteq> None then onmessage now msg s else s
      | Decoded k \<Rightarrow> stateOf (decoded decodeAudioData k s)
      | Ended source \<Rightarrow> if source < length (nodes s) then ended source s else s
      | ToggleMute \<Rightarrow> s\<lparr> isMuted := \<not> isMuted s \<rparr>
      | Disconnect \<Rightarrow> stateOf (disconnect throws s)
      | Unmount \<Rightarrow> stateOf (disconnect throws (s\<lparr> mounted := False \<rparr>))
      | OnCloseEvent \<Rightarrow> if mounted s then s\<lparr> statusText := Disconnected \<rparr> else s
      | OnErrorEvent \<Rightarrow> if mounted s then s\<lparr> statusText := ErrorOccurred \<rparr> else s)"

definition run ::
  "(string \<Rightarrow> error + AudioBuffer) \<Rightarrow> (release \<Rightarrow> bool) \<Rightarrow> event list \<Rightarrow> session \<Rightarrow> session" where
  "run decodeAudioData throws evs s = foldl (\<lambda>s e. step decodeAudioData throws e s) s evs"

definition sent :: "session \<Rightarrow> pcmBlob list" where
  "sent s = concat (map (\<lambda>e. case e of SendRealtimeInput b \<Rightarrow> [b] | _ \<Rightarrow> []) (effects s))"

text \<open>A change of state applied under the result of a handler, thrown or returned.\<close>

definition mapState ::
  "(session \<Rightarrow> session) \<Rightarrow> (error \<times> session) + session \<Rightarrow> (error \<times> session) + session" where
  "mapState f r = (case r of Inl (e, s) \<Rightarrow> Inl (e, f s) | Inr s \<Rightarrow> Inr (f s))"

text \<open>A state in which the audio callback is not installed and no frame has been sent
  or queued for sending.\<close>

definition quiet :: "session \<Rightarrow> bool" where
  "quiet s = (\<not> processorInstalled s \<and> sent s = [] \<and> pendingSends s = [])"

text \<open>The arrival of a message that carries the interruption flag.\<close>

fun isInterruption :: "event \<Rightarrow> bool" where
  "isInterruption (OnMessage now msg) = interrupted msg"
| "isInterruption _ = False"

text \<open>An event whose handling in state \<open>s\<close> reaches the interruption block with the flag set:
  the arrival of a flagged message, or the resumption of a suspended handler whose message
  is flagged.\<close>

fun interrupts :: "session \<Rightarrow> event \<Rightarrow> bool" where
  "interrupts s (OnMessage now msg) = interrupted msg"
| "interrupts s (Decoded k) = (k < length (awaiting s) \<and> interrupted (awaiting s ! k))"
| "interrupts s _ = False"

section \<open>The PCM codec\<close>

text \<open>
  The codec lives in services/audioUtils, which the component imports and which is missing
  from the sources. Its data and its two functions follow the specification (sections 3
  and 4.1).
\<close>

text \<open>Modelled from the spec: the \<open>SampleBuffer\<close> of the missing codec, an ordered sequence
  of samples (interleaved when there are several channels) tagged with sample rate and
  channel count.\<close>

record SampleBuffer =
  samples :: "real list"
  rate :: nat
  channels :: nat

text \<open>Modelled from the spec: the \<open>EncodedFrame\<close> of the missing codec, the bytes of the
  16-bit little-endian samples and their source sample rate.\<close>

record EncodedFrame =
  frameBytes :: "8 word list"
  frameRate :: nat

text \<open>Modelled from the spec: \<open>clamp(s, -1, 1)\<close>, of the missing \<open>encodePcm16\<close>.\<close>

definition clamp :: "real \<Rightarrow> real \<Rightarrow> real \<Rightarrow> real" where
  "clamp s lo hi = max lo (min hi s)"

text \<open>Modelled from the spec: the 16-bit value of a sample in the missing \<open>encodePcm16\<close>,
  \<open>round(clamp(s, -1, 1) * 32767)\<close>, rounding to the nearest integer.\<close>

definition quantize :: "real \<Rightarrow> int" where
  "quantize s = round (clamp s (-1) 1 * 32767)"

text \<open>Modelled from the spec: the little-endian serialisation of a signed 16-bit value,
  low byte first, of the missing \<open>encodePcm16\<close>.\<close>

definition int16le :: "int \<Rightarrow> 8 word list" where
  "int16le q = (let w = (word_of_int q :: 16 word) in [ucast w, ucast (drop_bit 8 w)])"

text \<open>Modelled from the spec: the missing \<open>encodePcm16\<close>, two bytes per sample, in the order
  of the (interleaved) samples.\<close>

definition encodePcm16 :: "SampleBuffer \<Rightarrow> EncodedFrame" where
  "encodePcm16 b =
     \<lparr> frameBytes = concat (map (\<lambda>s. int16le (quantize s)) (samples b)), frameRate = rate b \<rparr>"

text \<open>Modelled from the spec: reading little-endian signed 16-bit values, of the missing
  \<open>decodePcm16\<close>.\<close>

fun int16s :: "8 word list \<Rightarrow> int list" where
  "int16s (lo # hi # rest) = sint (word_cat hi lo :: 16 word) # int16s rest"
| "int16s _ = []"

text \<open>Modelled from the spec: the missing \<open>decodePcm16\<close>, which divides each value by 32768
  and fails with \<open>MalformedAudioError\<close> when the byte length is not a multiple of
  \<open>2 * channelCount\<close>.\<close>

definition decodePcm16 :: "8 word list \<Rightarrow> nat \<Rightarrow> nat \<Rightarrow> error + SampleBuffer" where
  "decodePcm16 bytes sampleRateHz channelCount =
     (if length bytes mod (2 * channelCount) \<noteq> 0 then Inl MalformedAudioError
      else Inr \<lparr> samples = map (\<lambda>v. real_of_int v / 32768) (int16s bytes),
                 rate = sampleRateHz, channels = channelCount \<rparr>)"

section \<open>Facts about the scheduler's operations\<close>

lemma stopAll_length [simp]: "length (stopAll is ns) = length ns"
  by (induction "is" arbitrary: ns) auto

lemma stopAll_fields:
  "i < length ns \<Longrightarrow>
     buffer (stopAll is ns ! i) = buffer (ns ! i) \<and> startedAt (stopAll is ns ! i) = startedAt (ns ! i)"
  by (induction "is" arbitrary: ns) (auto simp: nth_list_update)

lemma stopAll_keeps_stopped:
  "i < length ns \<Longrightarrow> stopped (ns ! i) \<Longrightarrow> stopped (stopAll is ns ! i)"
  by (induction "is" arbitrary: ns) (auto simp: nth_list_update)

lemma stopAll_stops:
  "i \<in> set is \<Longrightarrow> i < length ns \<Longrightarrow> stopped (stopAll is ns ! i)"
proof (induction "is" arbitrary: ns)
  case Nil
  then show ?case by simp
next
  case (Cons j js)
  show ?case
  proof (cases "i = j")
    case True
    with Cons.prems show ?thesis
      by (simp add: stopAll_keeps_stopped)
  next
    case False
    with Cons show ?thesis by auto
  qed
qed

lemma stopAll_others:
  "i \<notin> set is \<Longrightarrow> i < length ns \<Longrightarrow> stopAll is ns ! i = ns ! i"
  by (induction "is" arbitrary: ns) (auto simp: nth_list_update)

lemma frameLength_Abs:
  "1 \<le> n \<Longrightarrow> 1 \<le> r \<Longrightarrow> frameLength (Abs_AudioBuffer (n, r)) = n"
  by (simp add: frameLength.rep_eq Abs_AudioBuffer_inverse)

lemma sampleRate_Abs:
  "1 \<le> n \<Longrightarrow> 1 \<le> r \<Longrightarrow> sampleRate (Abs_AudioBuffer (n, r)) = r"
  by (simp add: sampleRate.rep_eq Abs_AudioBuffer_inverse)

lemma duration_Abs:
  "1 \<le> n \<Longrightarrow> 1 \<le> r \<Longrightarrow> duration (Abs_AudioBuffer (n, r)) = real n / real r"
  by (simp add: duration_def frameLength_Abs sampleRate_Abs)

lemma duration_pos: "0 < duration b"
proof -
  have "1 \<le> frameLength b" "1 \<le> sampleRate b"
    by (transfer, auto)+
  then show ?thesis by (simp add: duration_def)
qed

lemma duration_nonneg: "0 \<le> duration b"
  using duration_pos [of b] by simp

lemma set_Set_add: "set (Set_add x xs) = insert x (set xs)"
  by (auto simp: Set_add_def)

lemma set_Set_delete: "set (Set_delete x xs) = set xs - {x}"
  by (auto simp: Set_delete_def)

lemma startSource_nodes:
  "nodes (startSource buf s)
     = nodes s @ [\<lparr> buffer = buf, startedAt = nextStartTimeRef s, stopped = False \<rparr>]"
  by (simp add: startSource_def Let_def)

lemma startSource_cursor:
  "nextStartTimeRef (startSource buf s) = nextStartTimeRef s + duration buf"
  by (simp add: startSource_def Let_def)

lemma startSource_sources:
  "sourcesRef (startSource buf s) = Set_add (length (nodes s)) (sourcesRef s)"
  by (simp add: startSource_def Let_def)

lemma startSource_others:
  "awaiting (startSource buf s) = awaiting s \<and> mounted (startSource buf s) = mounted s
   \<and> outputAudioContextRef (startSource buf s) = outputAudioContextRef s
   \<and> effects (startSource buf s) = effects s \<and> pendingSends (startSource buf s) = pendingSends s
   \<and> processorInstalled (startSource buf s) = processorInstalled s
   \<and> capturedIsMuted (startSource buf s) = capturedIsMuted s"
  by (simp add: startSource_def Let_def)

lemma interrupt_others:
  "awaiting (interrupt s) = awaiting s \<and> mounted (interrupt s) = mounted s
   \<and> outputAudioContextRef (interrupt s) = outputAudioContextRef s
   \<and> effects (interrupt s) = effects s \<and> pendingSends (interrupt s) = pendingSends s
   \<and> processorInstalled (interrupt s) = processorInstalled s
   \<and> capturedIsMuted (interrupt s) = capturedIsMuted s"
  by (simp add: interrupt_def)

lemma onmessage_unmounted: "\<not> mounted s \<Longrightarrow> onmessage now msg s = s"
  by (simp add: onmessage_def)

lemma onmessage_suspends:
  "mounted s \<Longrightarrow> truthy (inlineData msg) \<Longrightarrow> outputAudioContextRef s \<noteq> None \<Longrightarrow>
     onmessage now msg s = (anchorCursor now s)\<lparr> awaiting := awaiting s @ [msg] \<rparr>"
  by (simp add: onmessage_def)

lemma onmessage_no_audio:
  "mounted s \<Longrightarrow> \<not> (truthy (inlineData msg) \<and> outputAudioContextRef s \<noteq> None) \<Longrightarrow>
     onmessage now msg s = (if interrupted msg then interrupt s else s)"
  by (auto simp: onmessage_def)

lemma awaiting_onmessage:
  "awaiting (onmessage now msg s) = awaiting s
   \<or> awaiting (onmessage now msg s) = awaiting s @ [msg]"
  by (simp add: onmessage_def anchorCursor_def interrupt_def)

lemma decoded_resume:
  "k < length (awaiting s) \<Longrightarrow>
     decoded d k s
       = afterDecode (d (the (inlineData (awaiting s ! k)))) (awaiting s ! k)
           (s\<lparr> awaiting := take k (awaiting s) @ drop (Suc k) (awaiting s) \<rparr>)"
  by (simp add: decoded_def Let_def)

lemma handled_suspended:
  assumes "mounted s" "truthy (inlineData msg)" "outputAudioContextRef s \<noteq> None"
  shows "handled d now msg s = afterDecode (d (the (inlineData msg))) msg (anchorCursor now s)"
proof -
  let ?s1 = "(anchorCursor now s)\<lparr> awaiting := awaiting s @ [msg] \<rparr>"
  have s1: "onmessage now msg s = ?s1"
    using assms by (rule onmessage_suspends)
  have restore: "(anchorCursor now s)\<lparr> awaiting := awaiting s \<rparr> = anchorCursor now s"
    by (simp add: anchorCursor_def)
  have "decoded d (length (awaiting s)) ?s1
      = afterDecode (d (the (inlineData msg))) msg (anchorCursor now s)"
    by (simp add: decoded_resume restore)
  then show ?thesis
    by (simp add: handled_def s1 Let_def)
qed

lemma handled_no_audio:
  "mounted s \<Longrightarrow> \<not> (truthy (inlineData msg) \<and> outputAudioContextRef s \<noteq> None) \<Longrightarrow>
     handled d now msg s = Inr (if interrupted msg then interrupt s else s)"
  by (simp add: handled_def onmessage_no_audio Let_def interrupt_others)

lemma handled_unmounted: "\<not> mounted s \<Longrightarrow> handled d now msg s = Inr s"
  by (simp add: handled_def onmessage_unmounted Let_def)

lemma afterDecode_ok:
  "afterDecode (Inr buf) msg s
     = Inr (if interrupted msg then interrupt (startSource buf s) else startSource buf s)"
  by (simp add: afterDecode_def Let_def)

lemma decoded_ok:
  "k < length (awaiting s) \<Longrightarrow> d (the (inlineData (awaiting s ! k))) = Inr buf \<Longrightarrow>
     \<not> interrupted (awaiting s ! k) \<Longrightarrow>
     decoded d k s
       = Inr (startSource buf (s\<lparr> awaiting := take k (awaiting s) @ drop (Suc k) (awaiting s) \<rparr>))"
  by (simp add: decoded_resume afterDecode_ok)

lemma decoded_flagged:
  "k < length (awaiting s) \<Longrightarrow> d (the (inlineData (awaiting s ! k))) = Inr buf \<Longrightarrow>
     interrupted (awaiting s ! k) \<Longrightarrow>
     decoded d k s
       = Inr (interrupt (startSource buf
                (s\<lparr> awaiting := take k (awaiting s) @ drop (Suc k) (awaiting s) \<rparr>)))"
  by (simp add: decoded_resume afterDecode_ok)

lemma decoded_rejected:
  "k < length (awaiting s) \<Longrightarrow> d (the (inlineData (awaiting s ! k))) = Inl e \<Longrightarrow>
     decoded d k s
       = Inl (e, s\<lparr> awaiting := take k (awaiting s) @ drop (Suc k) (awaiting s) \<rparr>)"
  by (simp add: decoded_resume afterDecode_def)

lemma decoded_none: "\<not> k < length (awaiting s) \<Longrightarrow> decoded d k s = Inr s"
  by (simp add: decoded_def)

lemma handled_ok:
  "mounted s \<Longrightarrow> truthy (inlineData msg) \<Longrightarrow> outputAudioContextRef s \<noteq> None \<Longrightarrow>
     d (the (inlineData msg)) = Inr buf \<Longrightarrow> \<not> interrupted msg \<Longrightarrow>
     handled d now msg s = Inr (startSource buf (anchorCursor now s))"
  by (simp add: handled_suspended afterDecode_ok)

lemma handled_ok_fields:
  assumes "mounted s" "truthy (inlineData msg)" "outputAudioContextRef s \<noteq> None"
    "d (the (inlineData msg)) = Inr buf" "\<not> interrupted msg"
  shows "nodes (stateOf (handled d now msg s))
           = nodes s @ [\<lparr> buffer = buf, startedAt = max (nextStartTimeRef s) now, stopped = False \<rparr>]"
    and "nextStartTimeRef (stateOf (handled d now msg s)) = max (nextStartTimeRef s) now + duration buf"
    and "sourcesRef (stateOf (handled d now msg s)) = Set_add (length (nodes s)) (sourcesRef s)"
    and "mounted (stateOf (handled d now msg s))"
    and "outputAudioContextRef (stateOf (handled d now msg s)) \<noteq> None"
    and "awaiting (stateOf (handled d now msg s)) = awaiting s"
  using assms
  by (simp_all add: handled_ok stateOf_def startSource_nodes startSource_cursor
        startSource_sources startSource_others anchorCursor_def)

lemma interrupt_new_node:
  "nodes (interrupt (startSource buf s)) ! length (nodes s)
     = \<lparr> buffer = buf, startedAt = nextStartTimeRef s, stopped = True \<rparr>"
proof -
  let ?s' = "startSource buf s"
  let ?h = "length (nodes s)"
  have h: "?h \<in> set (sourcesRef ?s')" "?h < length (nodes ?s')"
    by (simp_all add: startSource_sources startSource_nodes set_Set_add)
  have "stopped (stopAll (sourcesRef ?s') (nodes ?s') ! ?h)"
    using h by (rule stopAll_stops)
  moreover have "buffer (stopAll (sourcesRef ?s') (nodes ?s') ! ?h) = buf"
    "startedAt (stopAll (sourcesRef ?s') (nodes ?s') ! ?h) = nextStartTimeRef s"
    using stopAll_fields [OF h(2), of "sourcesRef ?s'"] by (simp_all add: startSource_nodes)
  ultimately show ?thesis
    by (simp add: interrupt_def)
qed

lemmas disconnect_defs = disconnect_def andThen_def callRelease_def stateOf_def Let_def

lemma disconnect_cursor [simp]:
  "nextStartTimeRef (stateOf (disconnect throws s)) = nextStartTimeRef s"
  by (simp add: disconnect_defs)

lemma disconnect_sources [simp]:
  "sourcesRef (stateOf (disconnect throws s)) = sourcesRef s"
  by (simp add: disconnect_defs)

lemma disconnect_nodes [simp]:
  "nodes (stateOf (disconnect throws s)) = nodes s"
  by (simp add: disconnect_defs)

lemma disconnect_captured [simp]:
  "capturedIsMuted (stateOf (disconnect throws s)) = capturedIsMuted s"
  by (simp add: disconnect_defs)

lemma disconnect_installed [simp]:
  "processorInstalled (stateOf (disconnect throws s)) = processorInstalled s"
  by (simp add: disconnect_defs)

lemma disconnect_pending [simp]:
  "pendingSends (stateOf (disconnect throws s)) = pendingSends s"
  by (simp add: disconnect_defs)

lemma sent_append: "sent (s\<lparr> effects := effects s @ es \<rparr>) = sent s @ concat (map (\<lambda>e. case e of SendRealtimeInput b \<Rightarrow> [b] | _ \<Rightarrow> []) es)"
  by (simp add: sent_def)

lemma disconnect_sent [simp]:
  "sent (stateOf (disconnect throws s)) = sent s"
  by (simp add: disconnect_defs sent_def)

lemma disconnect_awaiting [simp]:
  "awaiting (stateOf (disconnect throws s)) = awaiting s"
  by (simp add: disconnect_defs)

lemma disconnect_mounted [simp]:
  "mounted (stateOf (disconnect throws s)) = mounted s"
  by (simp add: disconnect_defs)

lemma run_Nil [simp]: "run d t [] s = s"
  by (simp add: run_def)

lemma run_Cons [simp]: "run d t (e # evs) s = run d t evs (step d t e s)"
  by (simp add: run_def)

lemma run_append: "run d t (evs @ evs') s = run d t evs' (run d t evs s)"
  by (simp add: run_def)

lemma onmessage_cursor:
  "nextStartTimeRef s \<le> nextStartTimeRef (onmessage now msg s)
   \<or> interrupted msg \<and> nextStartTimeRef (onmessage now msg s) = 0"
  by (simp add: onmessage_def anchorCursor_def interrupt_def)

lemma decoded_cursor:
  "nextStartTimeRef s \<le> nextStartTimeRef (stateOf (decoded d k s))
   \<or> (k < length (awaiting s) \<and> interrupted (awaiting s ! k))
     \<and> nextStartTimeRef (stateOf (decoded d k s)) = 0"
proof (cases "k < length (awaiting s)")
  case False
  then show ?thesis by (simp add: decoded_none stateOf_def)
next
  case True
  show ?thesis
  proof (cases "d (the (inlineData (awaiting s ! k)))")
    case (Inl e)
    with True show ?thesis by (simp add: decoded_rejected stateOf_def)
  next
    case (Inr buf)
    show ?thesis
    proof (cases "interrupted (awaiting s ! k)")
      case True
      with \<open>k < length (awaiting s)\<close> Inr show ?thesis
        by (simp add: decoded_flagged stateOf_def interrupt_def)
    next
      case False
      with \<open>k < length (awaiting s)\<close> Inr show ?thesis
        using duration_nonneg [of buf]
        by (simp add: decoded_ok stateOf_def startSource_cursor)
    qed
  qed
qed

lemma step_cursor:
  "nextStartTimeRef s \<le> nextStartTimeRef (step d t e s)
   \<or> interrupts s e \<and> nextStartTimeRef (step d t e s) = 0"
proof (cases e)
  case (OnMessage now msg)
  then show ?thesis
    using onmessage_cursor [of s now msg] by (simp add: step_def)
next
  case (Decoded k)
  then show ?thesis
    using decoded_cursor [of s d k] by (simp add: step_def)
qed (simp_all add: step_def onopen_def resolved_def onaudioprocess_def thenSend_def ended_def)

lemma awaiting_decoded:
  "set (awaiting (stateOf (decoded d k s))) \<subseteq> set (awaiting s)"
proof (cases "k < length (awaiting s)")
  case False
  then show ?thesis by (simp add: decoded_none stateOf_def)
next
  case True
  have sub: "set (take k (awaiting s) @ drop (Suc k) (awaiting s)) \<subseteq> set (awaiting s)"
    using set_take_subset [of k "awaiting s"] set_drop_subset [of "Suc k" "awaiting s"] by auto
  show ?thesis
  proof (cases "d (the (inlineData (awaiting s ! k)))")
    case (Inl e)
    with True sub show ?thesis by (simp add: decoded_rejected stateOf_def)
  next
    case (Inr buf)
    with True sub show ?thesis
      by (cases "interrupted (awaiting s ! k)")
         (simp_all add: decoded_ok decoded_flagged stateOf_def startSource_others interrupt_others)
  qed
qed

lemma awaiting_step:
  "set (awaiting (step d t e s)) \<subseteq> set (awaiting s) \<union> (case e of OnMessage now msg \<Rightarrow> {msg} | _ \<Rightarrow> {})"
proof (cases e)
  case (OnMessage now msg)
  then show ?thesis
    using awaiting_onmessage [of now msg s] by (auto simp: step_def)
next
  case (Decoded k)
  then show ?thesis
    using awaiting_decoded [of d k s] by (simp add: step_def)
qed (simp_all add: step_def onopen_def resolved_def onaudioprocess_def thenSend_def ended_def)

lemma step_unflagged:
  assumes "\<forall>m \<in> set (awaiting s). \<not> interrupted m" "\<not> isInterruption e"
  shows "\<forall>m \<in> set (awaiting (step d t e s)). \<not> interrupted m"
    and "\<not> interrupts s e"
proof -
  show "\<forall>m \<in> set (awaiting (step d t e s)). \<not> interrupted m"
    using awaiting_step [of d t e s] assms by (cases e) auto
  show "\<not> interrupts s e"
    using assms by (cases e) auto
qed

lemma run_cursor:
  "\<forall>m \<in> set (awaiting s). \<not> interrupted m \<Longrightarrow> \<forall>e \<in> set evs. \<not> isInterruption e \<Longrightarrow>
     nextStartTimeRef s \<le> nextStartTimeRef (run d t evs s)"
proof (induction evs arbitrary: s)
  case Nil
  then show ?case by simp
next
  case (Cons e evs)
  have e: "\<not> isInterruption e" using Cons.prems(2) by simp
  have "\<not> interrupts s e"
    using Cons.prems(1) e by (rule step_unflagged)
  then have "nextStartTimeRef s \<le> nextStartTimeRef (step d t e s)"
    using step_cursor [of s d t e] by simp
  also have "\<dots> \<le> nextStartTimeRef (run d t evs (step d t e s))"
    using Cons.prems step_unflagged(1) [OF Cons.prems(1) e] by (intro Cons.IH) simp_all
  finally show ?case by simp
qed








lemma handled_interrupted_completes:
  assumes "mounted s" "interrupted msg" "handled d now msg s = Inr s'"
  shows "sourcesRef s' = [] \<and> nextStartTimeRef s' = 0"
proof (cases "truthy (inlineData msg) \<and> outputAudioContextRef s \<noteq> None")
  case False
  with assms show ?thesis
    by (auto simp: handled_no_audio interrupt_def)
next
  case True
  with assms have "afterDecode (d (the (inlineData msg))) msg (anchorCursor now s) = Inr s'"
    by (simp add: handled_suspended)
  with assms(2) show ?thesis
    by (cases "d (the (inlineData msg))") (auto simp: afterDecode_def interrupt_def Let_def)
qed

lemma decoded_interrupted_completes:
  assumes "k < length (awaiting s)" "interrupted (awaiting s ! k)" "decoded d k s = Inr s'"
  shows "sourcesRef s' = [] \<and> nextStartTimeRef s' = 0"
  using assms
  by (cases "d (the (inlineData (awaiting s ! k)))")
     (auto simp: decoded_resume afterDecode_def interrupt_def Let_def)

lemmas eval_defs = step_def onopen_def resolved_def onmessage_def decoded_def afterDecode_def
  handled_def startSource_def anchorCursor_def interrupt_def truthy_def stateOf_def Set_add_def
  startSession_def initial_def Let_def duration_Abs

section \<open>Facts about capture and teardown\<close>

lemma onmessage_captured:
  "capturedIsMuted (onmessage now msg s) = capturedIsMuted s"
  by (simp add: onmessage_def anchorCursor_def interrupt_def)

lemma decoded_captured:
  "capturedIsMuted (stateOf (decoded d k s)) = capturedIsMuted s"
  by (simp add: decoded_def afterDecode_def stateOf_def startSource_def interrupt_def Let_def
        split: sum.splits)

lemma step_captured:
  "capturedIsMuted (step d t e s) = capturedIsMuted s"
  by (cases e)
     (simp_all add: step_def onopen_def resolved_def onaudioprocess_def thenSend_def ended_def
        onmessage_captured decoded_captured)

lemma run_captured:
  "capturedIsMuted (run d t evs s) = capturedIsMuted s"
  by (induction evs arbitrary: s) (simp_all add: step_captured)

lemma startSession_captured: "capturedIsMuted (startSession g initial) = False"
  by (simp add: startSession_def initial_def Let_def)

lemma onaudioprocess_unmuted:
  "\<not> capturedIsMuted s \<Longrightarrow>
     effects (onaudioprocess inputData s)
       = effects s @ SetVolume (volumeOf inputData)
           # (if sessionPromise s = Some Fulfilled
              then [SendRealtimeInput (CreatePcmBlob inputData)] else [])
     \<and> pendingSends (onaudioprocess inputData s)
       = pendingSends s @ (if sessionPromise s = Some Fulfilled then []
                            else [CreatePcmBlob inputData])"
  by (simp add: onaudioprocess_def thenSend_def)

lemma onmessage_isMuted:
  "onmessage now msg (s\<lparr> isMuted := b \<rparr>) = (onmessage now msg s)\<lparr> isMuted := b \<rparr>"
  by (auto simp: onmessage_def anchorCursor_def interrupt_def)

lemma decoded_isMuted:
  "stateOf (decoded d k (s\<lparr> isMuted := b \<rparr>)) = (stateOf (decoded d k s))\<lparr> isMuted := b \<rparr>"
  by (auto simp: decoded_def afterDecode_def stateOf_def startSource_def interrupt_def Let_def
        split: sum.splits)

lemma stateOf_mapState: "stateOf (mapState f r) = f (stateOf r)"
  by (simp add: stateOf_def mapState_def split: sum.splits prod.splits)

lemma andThen_mapState:
  "(\<And>s. k (f s) = mapState f (k' s)) \<Longrightarrow> andThen (mapState f r) k = mapState f (andThen r k')"
  by (simp add: andThen_def mapState_def split: sum.splits prod.splits)

lemma guarded_stage:
  assumes c: "\<And>s. c (f s) = c s"
    and r: "\<And>s. rel (f s) = mapState f (rel s)"
    and k: "\<And>s. k (f s) = mapState f (k s)"
  shows "andThen (if c (f s) then rel (f s) else Inr (f s)) k
           = mapState f (andThen (if c s then rel s else Inr s) k)"
proof -
  have "(if c (f s) then rel (f s) else Inr (f s)) = mapState f (if c s then rel s else Inr s)"
    by (simp add: c r) (simp add: mapState_def)
  then show ?thesis
    by (simp only: andThen_mapState [of k f k, OF k])
qed

lemma callRelease_isMuted:
  "callRelease t r (s\<lparr> isMuted := b \<rparr>) = mapState (\<lambda>s. s\<lparr> isMuted := b \<rparr>) (callRelease t r s)"
  by (cases r) (simp_all add: callRelease_def mapState_def Let_def)

lemma disconnect_isMuted:
  "disconnect t (s\<lparr> isMuted := b \<rparr>) = mapState (\<lambda>s. s\<lparr> isMuted := b \<rparr>) (disconnect t s)"
proof -
  let ?f = "\<lambda>s::session. s\<lparr> isMuted := b \<rparr>"
  let ?k4 = "\<lambda>s4::session. (Inr (s4\<lparr> isConnected := False, effects := effects s4 @ [OnCloseProp] \<rparr>)
                 :: (error \<times> session) + session)"
  let ?k3 = "\<lambda>s3. andThen (if animationFrameRef s3 \<noteq> None \<and> animationFrameRef s3 \<noteq> Some 0
                           then callRelease t CancelAnimationFrame s3 else Inr s3) ?k4"
  let ?k2 = "\<lambda>s2. andThen (if outputAudioContextRef s2 \<noteq> None
                           then callRelease t OutputContextClose s2 else Inr s2) ?k3"
  let ?k1 = "\<lambda>s1. andThen (if inputAudioContextRef s1 \<noteq> None
                           then callRelease t InputContextClose s1 else Inr s1) ?k2"
  have k4: "\<And>s. ?k4 (?f s) = mapState ?f (?k4 s)"
    by (simp add: mapState_def)
  have k3: "\<And>s. ?k3 (?f s) = mapState ?f (?k3 s)"
    by (rule guarded_stage [where f = ?f and k = ?k4
          and c = "\<lambda>s. animationFrameRef s \<noteq> None \<and> animationFrameRef s \<noteq> Some 0"
          and rel = "callRelease t CancelAnimationFrame"])
       (simp, rule callRelease_isMuted, rule k4)
  have k2: "\<And>s. ?k2 (?f s) = mapState ?f (?k2 s)"
    by (rule guarded_stage [where f = ?f and k = ?k3
          and c = "\<lambda>s. outputAudioContextRef s \<noteq> None"
          and rel = "callRelease t OutputContextClose"])
       (simp, rule callRelease_isMuted, rule k3)
  have k1: "\<And>s. ?k1 (?f s) = mapState ?f (?k1 s)"
    by (rule guarded_stage [where f = ?f and k = ?k2
          and c = "\<lambda>s. inputAudioContextRef s \<noteq> None"
          and rel = "callRelease t InputContextClose"])
       (simp, rule callRelease_isMuted, rule k2)
  have "andThen (if sessionRef (?f s) then callRelease t SessionClose (?f s) else Inr (?f s)) ?k1
      = mapState ?f (andThen (if sessionRef s then callRelease t SessionClose s else Inr s) ?k1)"
    by (rule guarded_stage [where f = ?f and k = ?k1 and c = sessionRef
          and rel = "callRelease t SessionClose"])
       (simp, rule callRelease_isMuted, rule k1)
  then show ?thesis
    unfolding disconnect_def .
qed

lemma step_isMuted:
  "\<exists>b'. step d t e (s\<lparr> isMuted := b \<rparr>) = (step d t e s)\<lparr> isMuted := b' \<rparr>"
proof (cases e)
  case (OnMessage now msg)
  then show ?thesis
    by (intro exI [of _ b]) (simp add: step_def onmessage_isMuted)
next
  case (Decoded k)
  then show ?thesis
    by (intro exI [of _ b]) (simp add: step_def decoded_isMuted)
next
  case Disconnect
  then show ?thesis
    by (intro exI [of _ b]) (simp add: step_def disconnect_isMuted stateOf_mapState)
next
  case Unmount
  have "s\<lparr>isMuted := b, mounted := False\<rparr> = s\<lparr>mounted := False\<rparr>\<lparr>isMuted := b\<rparr>" by simp
  then have "step d t e (s\<lparr> isMuted := b \<rparr>) = (step d t e s)\<lparr> isMuted := b \<rparr>"
    unfolding Unmount step_def by (simp only: event.case disconnect_isMuted stateOf_mapState)
  then show ?thesis by blast
next
  case ToggleMute
  then show ?thesis
    by (intro exI [of _ "\<not> b"]) (simp add: step_def)
qed (intro exI [of _ b], simp add: step_def onopen_def resolved_def onaudioprocess_def thenSend_def ended_def)+

lemma run_isMuted:
  "\<exists>b'. run d t evs (s\<lparr> isMuted := b \<rparr>) = (run d t evs s)\<lparr> isMuted := b' \<rparr>"
proof (induction evs arbitrary: s b)
  case Nil
  then show ?case by auto
next
  case (Cons e evs)
  obtain b1 where "step d t e (s\<lparr> isMuted := b \<rparr>) = (step d t e s)\<lparr> isMuted := b1 \<rparr>"
    using step_isMuted by blast
  then show ?case using Cons.IH [where s = "step d t e s" and b = b1] by simp
qed

lemma run_toggle:
  "effects (run d t (evs1 @ ToggleMute # evs2) s) = effects (run d t (evs1 @ evs2) s)
   \<and> pendingSends (run d t (evs1 @ ToggleMute # evs2) s) = pendingSends (run d t (evs1 @ evs2) s)"
proof -
  let ?s1 = "run d t evs1 s"
  obtain b' where "run d t evs2 (?s1\<lparr> isMuted := \<not> isMuted ?s1 \<rparr>) = (run d t evs2 ?s1)\<lparr> isMuted := b' \<rparr>"
    using run_isMuted by blast
  then show ?thesis
    by (simp add: run_append step_def)
qed

lemma sent_effects_append:
  "effects s' = effects s @ es \<Longrightarrow>
     sent s' = sent s @ concat (map (\<lambda>e. case e of SendRealtimeInput b \<Rightarrow> [b] | _ \<Rightarrow> []) es)"
  by (simp add: sent_def)

lemma onmessage_effects:
  "effects (onmessage now msg s) = effects s
   \<and> pendingSends (onmessage now msg s) = pendingSends s
   \<and> processorInstalled (onmessage now msg s) = processorInstalled s"
  by (simp add: onmessage_def anchorCursor_def interrupt_def)

lemma onmessage_sent: "sent (onmessage now msg s) = sent s"
  by (simp add: sent_def onmessage_effects)

lemma decoded_effects:
  "effects (stateOf (decoded d k s)) = effects s
   \<and> pendingSends (stateOf (decoded d k s)) = pendingSends s
   \<and> processorInstalled (stateOf (decoded d k s)) = processorInstalled s"
  by (simp add: decoded_def afterDecode_def stateOf_def startSource_def interrupt_def Let_def
        split: sum.splits)

lemma decoded_sent: "sent (stateOf (decoded d k s)) = sent s"
  by (simp add: sent_def decoded_effects)

lemma sent_mounted [simp]: "sent (s\<lparr> mounted := b \<rparr>) = sent s"
  by (simp add: sent_def)

lemma step_quiet:
  "OnOpen \<noteq> e \<Longrightarrow> quiet s \<Longrightarrow> quiet (step d t e s)"
proof (cases e)
  case Resolved
  assume "quiet s"
  then show ?thesis
    by (simp add: Resolved quiet_def step_def resolved_def sent_def)
next
  case (OnMessage now msg)
  assume "quiet s"
  then show ?thesis
    by (simp add: OnMessage quiet_def step_def onmessage_effects onmessage_sent)
next
  case (Decoded k)
  assume "quiet s"
  then show ?thesis
    by (simp add: Decoded quiet_def step_def decoded_effects decoded_sent)
next
  case (Ended i)
  assume "quiet s"
  then show ?thesis
    by (simp add: Ended quiet_def step_def ended_def sent_def)
qed (simp_all add: quiet_def step_def sent_def [of "_\<lparr> isMuted := _ \<rparr>"]
       sent_def [of "_\<lparr> statusText := _ \<rparr>"] sent_def [of s])

lemma run_quiet:
  "OnOpen \<notin> set evs \<Longrightarrow> quiet s \<Longrightarrow> quiet (run d t evs s)"
  by (induction evs arbitrary: s) (auto simp: step_quiet)

lemma startSession_quiet: "quiet (startSession g initial)"
  by (simp add: quiet_def startSession_def initial_def sent_def Let_def)

lemma callRelease_ok:
  "\<not> throws r \<Longrightarrow> \<exists>s'. callRelease throws r s = Inr s'
      \<and> effects s' = effects s @ [Close r]
      \<and> sessionRef s' = sessionRef s
      \<and> animationFrameRef s' = animationFrameRef s
      \<and> (inputAudioContextRef s' \<noteq> None) = (r = InputContextClose \<or> inputAudioContextRef s \<noteq> None)
      \<and> (outputAudioContextRef s' \<noteq> None) = (r = OutputContextClose \<or> outputAudioContextRef s \<noteq> None)"
  by (cases r) (simp_all add: callRelease_def Let_def)

lemma callRelease_throws:
  "throws r \<Longrightarrow> callRelease throws r s = Inl (ReleaseError r, s\<lparr> effects := effects s @ [Close r] \<rparr>)"
  by (simp add: callRelease_def Let_def)

section \<open>Facts about the codec\<close>

lemma cat_split16: "word_cat (ucast (drop_bit 8 w) :: 8 word) (ucast w :: 8 word) = (w :: 16 word)"
  by (rule bit_word_eqI) (auto simp: bit_simps)

lemma sint16_of_int: "- 32768 \<le> q \<Longrightarrow> q < 32768 \<Longrightarrow> sint (word_of_int q :: 16 word) = q"
  by (simp add: sint_sbintrunc' signed_take_bit_int_eq_self)

lemma quantize_range: "- 32767 \<le> quantize s \<and> quantize s \<le> 32767"
proof -
  let ?c = "clamp s (-1) 1"
  have c: "-1 \<le> ?c" "?c \<le> 1" by (simp_all add: clamp_def)
  have "round (?c * 32767) \<le> round (32767 :: real)"
    by (rule round_mono) (use c in simp)
  moreover have "round (-32767 :: real) \<le> round (?c * 32767)"
    by (rule round_mono) (use c in simp)
  ultimately show ?thesis by (simp add: quantize_def)
qed

lemma int16s_int16le:
  "- 32768 \<le> q \<Longrightarrow> q < 32768 \<Longrightarrow> int16s (int16le q @ rest) = q # int16s rest"
  by (simp add: int16le_def Let_def cat_split16 sint16_of_int)

lemma int16s_encode:
  "int16s (concat (map (\<lambda>s. int16le (quantize s)) xs)) = map quantize xs"
proof (induction xs)
  case Nil
  then show ?case by simp
next
  case (Cons x xs)
  have "- 32768 \<le> quantize x" "quantize x < 32768"
    using quantize_range [of x] by simp_all
  then show ?case
    using Cons.IH by (simp add: int16s_int16le)
qed

lemma length_encode:
  "length (concat (map (\<lambda>s. int16le (quantize s)) xs)) = 2 * length xs"
  by (induction xs) (simp_all add: int16le_def Let_def)

lemma quantize_error:
  assumes "-1 \<le> s" "s \<le> 1"
  shows "\<bar>s - real_of_int (quantize s) / 32768\<bar> \<le> 3 / 65536"
proof -
  define r where "r = real_of_int (round (s * 32767))"
  have q: "real_of_int (quantize s) = r"
    using assms by (simp add: quantize_def clamp_def r_def)
  have "\<bar>r - s * 32767\<bar> \<le> 1 / 2"
    unfolding r_def by (rule of_int_round_abs_le)
  then have "\<bar>s - r / 32768\<bar> \<le> 3 / 65536"
    using assms by linarith
  then show ?thesis by (simp only: q)
qed

lemma decode_encode:
  assumes "length (samples b) mod channels b = 0"
  shows "decodePcm16 (frameBytes (encodePcm16 b)) (rate b) (channels b)
     = Inr \<lparr> samples = map (\<lambda>s. real_of_int (quantize s) / 32768) (samples b),
             rate = rate b, channels = channels b \<rparr>"
proof -
  have "(2 * length (samples b)) mod (2 * channels b) = 0"
    using assms by simp
  then show ?thesis
    by (simp add: decodePcm16_def encodePcm16_def length_encode int16s_encode comp_def)
qed

section \<open>The claims\<close>

text \<open>
  C1, as stated, fails: the handler raises the cursor before it awaits the decode and
  starts the node after it. An audio message arrives at clock reading 1 in a fresh session
  (the cursor becomes 1), an interruption is handled while its decode is awaited (the
  cursor becomes 0), then the decode completes: the node is started at 0, not at 1.
\<close>

theorem interleaved_interrupt_start_counterexample:
  "max (nextStartTimeRef (run (\<lambda>x. Inr (Abs_AudioBuffer (24000, 24000))) (\<lambda>r. False) [OnOpen]
          (startSession True initial))) 1 = 1
   \<and> nodes (run (\<lambda>x. Inr (Abs_AudioBuffer (24000, 24000))) (\<lambda>r. False)
        [OnOpen,
         OnMessage 1 \<lparr> inlineData = Some ''AAAA'', interrupted = False \<rparr>,
         OnMessage 2 \<lparr> inlineData = None, interrupted = True \<rparr>,
         Decoded 0]
        (startSession True initial))
      = [\<lparr> buffer = Abs_AudioBuffer (24000, 24000), startedAt = 0, stopped = False \<rparr>]
   \<and> sourcesRef (run (\<lambda>x. Inr (Abs_AudioBuffer (24000, 24000))) (\<lambda>r. False)
        [OnOpen,
         OnMessage 1 \<lparr> inlineData = Some ''AAAA'', interrupted = False \<rparr>,
         OnMessage 2 \<lparr> inlineData = None, interrupted = True \<rparr>,
         Decoded 0]
        (startSession True initial)) = [0]"
  by (simp add: eval_defs)

text \<open>
  C1, amended. When a message with audio arrives at a mounted component with an output
  context, the handler raises the cursor to the larger of cursor and clock and awaits the
  decode. When the decode of a message without the interruption flag yields its buffer, a
  node playing the buffer is started at the cursor as it then stands, the cursor advances by the buffer's duration and the node joins the active
  set; the \<open>ended\<close> listener removes exactly that node from the set and nothing else. For a
  message whose decode completes before any other event is handled, the start is therefore
  the larger of cursor and clock: three such messages, handled one after another while the
  clock has not passed the cursor, start at \<open>t0\<close>, \<open>t0 + d1\<close>, \<open>t0 + d1 + d2\<close> with \<open>t0\<close> at
  or after the first clock reading, and a buffer that arrives when the clock has passed the
  cursor starts at the clock reading.
\<close>

theorem decoded_buffer_schedule:
  "(mounted s \<and> truthy (inlineData msg) \<and> outputAudioContextRef s \<noteq> None \<longrightarrow>
      nextStartTimeRef (onmessage now msg s) = max (nextStartTimeRef s) now
      \<and> nodes (onmessage now msg s) = nodes s
      \<and> sourcesRef (onmessage now msg s) = sourcesRef s
      \<and> awaiting (onmessage now msg s) = awaiting s @ [msg])
   \<and> (k < length (awaiting s) \<and> decodeAudioData (the (inlineData (awaiting s ! k))) = Inr buf
        \<and> \<not> interrupted (awaiting s ! k) \<longrightarrow>
      \<not> isl (decoded decodeAudioData k s)
      \<and> nodes (stateOf (decoded decodeAudioData k s))
          = nodes s @ [\<lparr> buffer = buf, startedAt = nextStartTimeRef s, stopped = False \<rparr>]
      \<and> nextStartTimeRef (stateOf (decoded decodeAudioData k s)) = nextStartTimeRef s + duration buf
      \<and> set (sourcesRef (stateOf (decoded decodeAudioData k s)))
          = insert (length (nodes s)) (set (sourcesRef s)))
   \<and> set (sourcesRef (ended i s)) = set (sourcesRef s) - {i}
   \<and> nodes (ended i s) = nodes s
   \<and> nextStartTimeRef (ended i s) = nextStartTimeRef s
   \<and> (mounted s \<and> truthy (inlineData msg) \<and> outputAudioContextRef s \<noteq> None
        \<and> decodeAudioData (the (inlineData msg)) = Inr buf \<and> \<not> interrupted msg \<longrightarrow>
      \<not> isl (handled decodeAudioData now msg s)
      \<and> nodes (stateOf (handled decodeAudioData now msg s))
          = nodes s @ [\<lparr> buffer = buf, startedAt = max (nextStartTimeRef s) now, stopped = False \<rparr>]
      \<and> nextStartTimeRef (stateOf (handled decodeAudioData now msg s))
          = max (nextStartTimeRef s) now + duration buf
      \<and> set (sourcesRef (stateOf (handled decodeAudioData now msg s)))
          = insert (length (nodes s)) (set (sourcesRef s))
      \<and> (nextStartTimeRef s < now \<longrightarrow>
            startedAt (last (nodes (stateOf (handled decodeAudioData now msg s)))) = now))
   \<and> (mounted s \<and> outputAudioContextRef s \<noteq> None
        \<and> truthy (inlineData m1) \<and> decodeAudioData (the (inlineData m1)) = Inr b1 \<and> \<not> interrupted m1
        \<and> truthy (inlineData m2) \<and> decodeAudioData (the (inlineData m2)) = Inr b2 \<and> \<not> interrupted m2
        \<and> truthy (inlineData m3) \<and> decodeAudioData (the (inlineData m3)) = Inr b3 \<and> \<not> interrupted m3
        \<and> now2 \<le> nextStartTimeRef (stateOf (handled decodeAudioData now m1 s))
        \<and> now3 \<le> nextStartTimeRef (stateOf (handled decodeAudioData now2 m2
                     (stateOf (handled decodeAudioData now m1 s)))) \<longrightarrow>
      map startedAt (drop (length (nodes s))
        (nodes (stateOf (handled decodeAudioData now3 m3
                 (stateOf (handled decodeAudioData now2 m2
                   (stateOf (handled decodeAudioData now m1 s))))))))
        = [max (nextStartTimeRef s) now,
           max (nextStartTimeRef s) now + duration b1,
           max (nextStartTimeRef s) now + duration b1 + duration b2]
      \<and> now \<le> max (nextStartTimeRef s) now)"
proof (intro conjI impI)
  assume a: "mounted s \<and> truthy (inlineData msg) \<and> outputAudioContextRef s \<noteq> None"
  then have e: "onmessage now msg s = (anchorCursor now s)\<lparr> awaiting := awaiting s @ [msg] \<rparr>"
    by (simp add: onmessage_suspends)
  show "nextStartTimeRef (onmessage now msg s) = max (nextStartTimeRef s) now"
    "nodes (onmessage now msg s) = nodes s"
    "sourcesRef (onmessage now msg s) = sourcesRef s"
    "awaiting (onmessage now msg s) = awaiting s @ [msg]"
    by (simp_all add: e anchorCursor_def)
next
  assume a: "k < length (awaiting s) \<and> decodeAudioData (the (inlineData (awaiting s ! k))) = Inr buf
        \<and> \<not> interrupted (awaiting s ! k)"
  then have e: "decoded decodeAudioData k s
       = Inr (startSource buf (s\<lparr> awaiting := take k (awaiting s) @ drop (Suc k) (awaiting s) \<rparr>))"
    by (simp add: decoded_ok)
  show "\<not> isl (decoded decodeAudioData k s)"
    "nodes (stateOf (decoded decodeAudioData k s))
          = nodes s @ [\<lparr> buffer = buf, startedAt = nextStartTimeRef s, stopped = False \<rparr>]"
    "nextStartTimeRef (stateOf (decoded decodeAudioData k s)) = nextStartTimeRef s + duration buf"
    "set (sourcesRef (stateOf (decoded decodeAudioData k s)))
          = insert (length (nodes s)) (set (sourcesRef s))"
    by (simp_all add: e stateOf_def startSource_nodes startSource_cursor startSource_sources
          set_Set_add)
next
  show "set (sourcesRef (ended i s)) = set (sourcesRef s) - {i}"
    "nodes (ended i s) = nodes s" "nextStartTimeRef (ended i s) = nextStartTimeRef s"
    by (simp_all add: ended_def set_Set_delete)
next
  assume a: "mounted s \<and> truthy (inlineData msg) \<and> outputAudioContextRef s \<noteq> None
        \<and> decodeAudioData (the (inlineData msg)) = Inr buf \<and> \<not> interrupted msg"
  then have f: "nodes (stateOf (handled decodeAudioData now msg s))
          = nodes s @ [\<lparr> buffer = buf, startedAt = max (nextStartTimeRef s) now, stopped = False \<rparr>]"
    "nextStartTimeRef (stateOf (handled decodeAudioData now msg s))
          = max (nextStartTimeRef s) now + duration buf"
    "sourcesRef (stateOf (handled decodeAudioData now msg s)) = Set_add (length (nodes s)) (sourcesRef s)"
    by (simp_all add: handled_ok_fields)
  from a show "\<not> isl (handled decodeAudioData now msg s)"
    by (simp add: handled_ok)
  from f show "nodes (stateOf (handled decodeAudioData now msg s))
          = nodes s @ [\<lparr> buffer = buf, startedAt = max (nextStartTimeRef s) now, stopped = False \<rparr>]"
    "nextStartTimeRef (stateOf (handled decodeAudioData now msg s))
          = max (nextStartTimeRef s) now + duration buf"
    "set (sourcesRef (stateOf (handled decodeAudioData now msg s)))
          = insert (length (nodes s)) (set (sourcesRef s))"
    by (simp_all add: set_Set_add)
  assume "nextStartTimeRef s < now"
  then show "startedAt (last (nodes (stateOf (handled decodeAudioData now msg s)))) = now"
    by (simp add: f)
next
  assume a: "mounted s \<and> outputAudioContextRef s \<noteq> None
        \<and> truthy (inlineData m1) \<and> decodeAudioData (the (inlineData m1)) = Inr b1 \<and> \<not> interrupted m1
        \<and> truthy (inlineData m2) \<and> decodeAudioData (the (inlineData m2)) = Inr b2 \<and> \<not> interrupted m2
        \<and> truthy (inlineData m3) \<and> decodeAudioData (the (inlineData m3)) = Inr b3 \<and> \<not> interrupted m3
        \<and> now2 \<le> nextStartTimeRef (stateOf (handled decodeAudioData now m1 s))
        \<and> now3 \<le> nextStartTimeRef (stateOf (handled decodeAudioData now2 m2
                     (stateOf (handled decodeAudioData now m1 s))))"
  let ?t0 = "max (nextStartTimeRef s) now"
  let ?s1 = "stateOf (handled decodeAudioData now m1 s)"
  let ?s2 = "stateOf (handled decodeAudioData now2 m2 ?s1)"
  let ?s3 = "stateOf (handled decodeAudioData now3 m3 ?s2)"
  note f1 = handled_ok_fields [of s m1 decodeAudioData b1 now]
  have s1: "nodes ?s1 = nodes s @ [\<lparr> buffer = b1, startedAt = ?t0, stopped = False \<rparr>]"
    "nextStartTimeRef ?s1 = ?t0 + duration b1" "mounted ?s1" "outputAudioContextRef ?s1 \<noteq> None"
    using a f1 by simp_all
  note f2 = handled_ok_fields [of ?s1 m2 decodeAudioData b2 now2]
  have m2: "max (nextStartTimeRef ?s1) now2 = ?t0 + duration b1"
    using a s1(2) by simp
  have s2: "nodes ?s2 = nodes ?s1 @ [\<lparr> buffer = b2, startedAt = ?t0 + duration b1, stopped = False \<rparr>]"
    "nextStartTimeRef ?s2 = ?t0 + duration b1 + duration b2" "mounted ?s2"
    "outputAudioContextRef ?s2 \<noteq> None"
    using a s1(3,4) f2 m2 by simp_all
  note f3 = handled_ok_fields [of ?s2 m3 decodeAudioData b3 now3]
  have m3: "max (nextStartTimeRef ?s2) now3 = ?t0 + duration b1 + duration b2"
    using a s2(2) by simp
  have s3: "nodes ?s3 = nodes ?s2
      @ [\<lparr> buffer = b3, startedAt = ?t0 + duration b1 + duration b2, stopped = False \<rparr>]"
    using a s2(3,4) f3(1) m3 by simp
  show "map startedAt (drop (length (nodes s)) (nodes ?s3))
        = [?t0, ?t0 + duration b1, ?t0 + duration b1 + duration b2]"
    by (simp add: s3 s2(1) s1(1))
  show "now \<le> ?t0" by simp
qed

theorem decoded_buffer_schedule_witness:
  "mounted (startSession True initial)
   \<and> outputAudioContextRef (startSession True initial) \<noteq> None
   \<and> truthy (inlineData \<lparr> inlineData = Some ''AAAA'', interrupted = False \<rparr>)
   \<and> nodes (stateOf (handled (\<lambda>x. Inr (Abs_AudioBuffer (6000 * length x, 24000))) 1
               \<lparr> inlineData = Some ''AAAA'', interrupted = False \<rparr> (startSession True initial)))
      = [\<lparr> buffer = Abs_AudioBuffer (24000, 24000), startedAt = 1, stopped = False \<rparr>]
   \<and> map startedAt (nodes (stateOf (handled (\<lambda>x. Inr (Abs_AudioBuffer (6000 * length x, 24000))) 1
               \<lparr> inlineData = Some ''A'', interrupted = False \<rparr>
        (stateOf (handled (\<lambda>x. Inr (Abs_AudioBuffer (6000 * length x, 24000))) 1
               \<lparr> inlineData = Some ''AA'', interrupted = False \<rparr>
        (stateOf (handled (\<lambda>x. Inr (Abs_AudioBuffer (6000 * length x, 24000))) 1
               \<lparr> inlineData = Some ''AAAA'', interrupted = False \<rparr> (startSession True initial))))))))
      = [1, 2, 5 / 2]"
proof -
  let ?d = "\<lambda>x::string. (Inr (Abs_AudioBuffer (6000 * length x, 24000)) :: error + AudioBuffer)"
  let ?s = "startSession True initial"
  let ?m1 = "\<lparr> inlineData = Some ''AAAA'', interrupted = False \<rparr>"
  let ?m2 = "\<lparr> inlineData = Some ''AA'', interrupted = False \<rparr>"
  let ?m3 = "\<lparr> inlineData = Some ''A'', interrupted = False \<rparr>"
  have pre: "mounted ?s" "outputAudioContextRef ?s \<noteq> None" "nodes ?s = []"
    "nextStartTimeRef ?s = 0"
    "truthy (inlineData ?m1)" "truthy (inlineData ?m2)" "truthy (inlineData ?m3)"
    "?d (the (inlineData ?m1)) = Inr (Abs_AudioBuffer (24000, 24000))"
    "?d (the (inlineData ?m2)) = Inr (Abs_AudioBuffer (12000, 24000))"
    "?d (the (inlineData ?m3)) = Inr (Abs_AudioBuffer (6000, 24000))"
    by (simp_all add: startSession_def initial_def truthy_def)
  have c1: "nextStartTimeRef (stateOf (handled ?d 1 ?m1 ?s)) = 2"
    by (simp add: eval_defs)
  have c2: "nextStartTimeRef (stateOf (handled ?d 1 ?m2 (stateOf (handled ?d 1 ?m1 ?s)))) = 5 / 2"
    by (simp add: eval_defs)
  note c = decoded_buffer_schedule [where s = ?s and now = 1 and ?now2.0 = 1 and ?now3.0 = 1
      and decodeAudioData = ?d and msg = ?m1 and buf = "Abs_AudioBuffer (24000, 24000)"
      and ?m1.0 = ?m1 and ?m2.0 = ?m2 and ?m3.0 = ?m3
      and ?b1.0 = "Abs_AudioBuffer (24000, 24000)"
      and ?b2.0 = "Abs_AudioBuffer (12000, 24000)"
      and ?b3.0 = "Abs_AudioBuffer (6000, 24000)"]
  from c pre c1 c2 show ?thesis
    by (simp add: duration_Abs)
qed




text \<open>
  C3. The claim asks that a muted session forwards no frame. The component does not do so:
  the audio callback tests the \<open>isMuted\<close> of the render that ran the mount effect, which
  is \<open>False\<close>, so after the user has muted, a capture tick still publishes its loudness
  and still sends its frame. The run below is a session that opens, is muted, and receives
  one frame of two samples.
\<close>

theorem muted_tick_still_forwards:
  "isMuted (run (\<lambda>d. Inl MalformedAudioError) (\<lambda>r. False) [OnOpen, Resolved, ToggleMute]
             (startSession True initial))
   \<and> volumeOf [1, -1] = Some 1
   \<and> effects (run (\<lambda>d. Inl MalformedAudioError) (\<lambda>r. False)
               [OnOpen, Resolved, ToggleMute, AudioProcess [1, -1]]
               (startSession True initial))
       = [SetVolume (Some 1), SendRealtimeInput (CreatePcmBlob [1, -1])]
   \<and> sent (run (\<lambda>d. Inl MalformedAudioError) (\<lambda>r. False)
               [OnOpen, Resolved, ToggleMute, AudioProcess [1, -1]]
               (startSession True initial))
       = [CreatePcmBlob [1, -1]]"
  by (simp add: step_def onopen_def resolved_def onaudioprocess_def thenSend_def sent_def
        volumeOf_def startSession_def initial_def Let_def)

text \<open>
  C4, as stated, fails: \<open>disconnect\<close> has no handler around its calls. In an open session
  whose transport \<open>close()\<close> throws, neither audio context is closed and the exception
  leaves \<open>disconnect\<close>.
\<close>

theorem disconnect_short_circuits_counterexample:
  "sessionRef (run (\<lambda>d. Inl MalformedAudioError) (\<lambda>r. False) [OnOpen, Resolved] (startSession True initial))
   \<and> inputAudioContextRef (run (\<lambda>d. Inl MalformedAudioError) (\<lambda>r. False) [OnOpen, Resolved]
        (startSession True initial)) = Some Running
   \<and> outputAudioContextRef (run (\<lambda>d. Inl MalformedAudioError) (\<lambda>r. False) [OnOpen, Resolved]
        (startSession True initial)) = Some Running
   \<and> disconnect (\<lambda>r. r = SessionClose)
        (run (\<lambda>d. Inl MalformedAudioError) (\<lambda>r. False) [OnOpen, Resolved] (startSession True initial))
      = Inl (ReleaseError SessionClose,
             (run (\<lambda>d. Inl MalformedAudioError) (\<lambda>r. False) [OnOpen, Resolved]
                (startSession True initial))\<lparr> effects := [Close SessionClose] \<rparr>)
   \<and> Close InputContextClose \<notin> set [Close SessionClose]
   \<and> Close OutputContextClose \<notin> set [Close SessionClose]"
proof -
  let ?s = "run (\<lambda>d. Inl MalformedAudioError) (\<lambda>r. False) [OnOpen, Resolved] (startSession True initial)"
  have pre: "sessionRef ?s" "inputAudioContextRef ?s = Some Running"
    "outputAudioContextRef ?s = Some Running" "effects ?s = []"
    by (simp_all add: step_def onopen_def resolved_def startSession_def initial_def Let_def)
  have "disconnect (\<lambda>r. r = SessionClose) ?s
      = Inl (ReleaseError SessionClose, ?s\<lparr> effects := [Close SessionClose] \<rparr>)"
    unfolding disconnect_def using pre
    by (simp add: callRelease_throws andThen_def)
  with pre show ?thesis by simp
qed

text \<open>
  C4, amended. Teardown makes its release calls in order: the transport session, the input
  audio context, the output audio context (and a pending animation frame), each only when
  its handle is present. When no call throws, all of them are made and teardown returns.
  A call that throws ends teardown at that call: the calls before it have been made, the
  calls after it have not, and the exception leaves \<open>disconnect\<close>.
\<close>

theorem disconnect_releases_in_order:
  "((\<forall>r. \<not> throws r) \<longrightarrow>
      \<not> isl (disconnect throws s)
      \<and> effects (stateOf (disconnect throws s))
          = effects s
            @ (if sessionRef s then [Close SessionClose] else [])
            @ (if inputAudioContextRef s \<noteq> None then [Close InputContextClose] else [])
            @ (if outputAudioContextRef s \<noteq> None then [Close OutputContextClose] else [])
            @ (if animationFrameRef s \<noteq> None \<and> animationFrameRef s \<noteq> Some 0
               then [Close CancelAnimationFrame] else [])
            @ [OnCloseProp])
   \<and> (sessionRef s \<and> throws SessionClose \<longrightarrow>
        disconnect throws s
          = Inl (ReleaseError SessionClose, s\<lparr> effects := effects s @ [Close SessionClose] \<rparr>))
   \<and> (\<not> throws SessionClose \<and> inputAudioContextRef s \<noteq> None \<and> throws InputContextClose \<longrightarrow>
        isl (disconnect throws s)
        \<and> effects (stateOf (disconnect throws s))
            = effects s @ (if sessionRef s then [Close SessionClose] else [])
                @ [Close InputContextClose])
   \<and> (\<not> throws SessionClose \<and> \<not> throws InputContextClose
        \<and> outputAudioContextRef s \<noteq> None \<and> throws OutputContextClose \<longrightarrow>
        isl (disconnect throws s)
        \<and> effects (stateOf (disconnect throws s))
            = effects s @ (if sessionRef s then [Close SessionClose] else [])
                @ (if inputAudioContextRef s \<noteq> None then [Close InputContextClose] else [])
                @ [Close OutputContextClose])"
proof (intro conjI impI)
  assume "sessionRef s \<and> throws SessionClose"
  then show "disconnect throws s
          = Inl (ReleaseError SessionClose, s\<lparr> effects := effects s @ [Close SessionClose] \<rparr>)"
    by (simp add: disconnect_def callRelease_throws andThen_def)
next
  assume a: "\<forall>r. \<not> throws r"
  then show "\<not> isl (disconnect throws s)"
    by (simp add: disconnect_defs)
  from a show "effects (stateOf (disconnect throws s))
          = effects s
            @ (if sessionRef s then [Close SessionClose] else [])
            @ (if inputAudioContextRef s \<noteq> None then [Close InputContextClose] else [])
            @ (if outputAudioContextRef s \<noteq> None then [Close OutputContextClose] else [])
            @ (if animationFrameRef s \<noteq> None \<and> animationFrameRef s \<noteq> Some 0
               then [Close CancelAnimationFrame] else [])
            @ [OnCloseProp]"
    by (simp add: disconnect_defs)
next
  assume a: "\<not> throws SessionClose \<and> inputAudioContextRef s \<noteq> None \<and> throws InputContextClose"
  then show "isl (disconnect throws s)"
    by (simp add: disconnect_defs)
  from a show "effects (stateOf (disconnect throws s))
            = effects s @ (if sessionRef s then [Close SessionClose] else [])
                @ [Close InputContextClose]"
    by (simp add: disconnect_defs)
next
  assume a: "\<not> throws SessionClose \<and> \<not> throws InputContextClose
        \<and> outputAudioContextRef s \<noteq> None \<and> throws OutputContextClose"
  then show "isl (disconnect throws s)"
    by (auto simp: disconnect_defs)
  from a show "effects (stateOf (disconnect throws s))
            = effects s @ (if sessionRef s then [Close SessionClose] else [])
                @ (if inputAudioContextRef s \<noteq> None then [Close InputContextClose] else [])
                @ [Close OutputContextClose]"
    by (auto simp: disconnect_defs)
qed

theorem disconnect_releases_in_order_witness:
  "(\<forall>r. \<not> (\<lambda>r. False) r)
   \<and> \<not> isl (disconnect (\<lambda>r. False)
        (run (\<lambda>d. Inl MalformedAudioError) (\<lambda>r. False) [OnOpen, Resolved] (startSession True initial)))
   \<and> effects (stateOf (disconnect (\<lambda>r. False)
        (run (\<lambda>d. Inl MalformedAudioError) (\<lambda>r. False) [OnOpen, Resolved] (startSession True initial))))
      = [Close SessionClose, Close InputContextClose, Close OutputContextClose, OnCloseProp]
   \<and> isl (disconnect (\<lambda>r. r = InputContextClose)
        (run (\<lambda>d. Inl MalformedAudioError) (\<lambda>r. False) [OnOpen, Resolved] (startSession True initial)))
   \<and> effects (stateOf (disconnect (\<lambda>r. r = InputContextClose)
        (run (\<lambda>d. Inl MalformedAudioError) (\<lambda>r. False) [OnOpen, Resolved] (startSession True initial))))
      = [Close SessionClose, Close InputContextClose]"
proof -
  let ?s = "run (\<lambda>d. Inl MalformedAudioError) (\<lambda>r. False) [OnOpen, Resolved] (startSession True initial)"
  have pre: "sessionRef ?s" "inputAudioContextRef ?s = Some Running"
    "outputAudioContextRef ?s = Some Running" "effects ?s = []" "animationFrameRef ?s = None"
    by (simp_all add: step_def onopen_def resolved_def startSession_def initial_def Let_def)
  from disconnect_releases_in_order [where s = ?s and throws = "\<lambda>r. False"]
    disconnect_releases_in_order [where s = ?s and throws = "\<lambda>r. r = InputContextClose"] pre
  show ?thesis by simp
qed

text \<open>
  C5. Neither raising the cursor to the clock nor starting a source lowers the cursor: the
  first takes a maximum, the second adds a duration that is not negative. Every event of
  the component either leaves the cursor at least where it was, or reaches the interruption
  block with the flag set and puts it to 0; over any sequence of events in which no flagged
  message arrives, from a state with no flagged message awaiting its decode (a started
  session is one), the cursor does not decrease.
\<close>

theorem cursor_monotone_except_interrupt:
  "nextStartTimeRef s \<le> nextStartTimeRef (anchorCursor now s)
   \<and> nextStartTimeRef s \<le> nextStartTimeRef (startSource buf s)
   \<and> nextStartTimeRef s \<le> nextStartTimeRef (startSource buf (anchorCursor now s))
   \<and> nextStartTimeRef (interrupt s) = 0
   \<and> (nextStartTimeRef s \<le> nextStartTimeRef (step decodeAudioData throws e s)
       \<or> interrupts s e \<and> nextStartTimeRef (step decodeAudioData throws e s) = 0)
   \<and> ((\<forall>m \<in> set (awaiting s). \<not> interrupted m) \<and> (\<forall>e \<in> set evs. \<not> isInterruption e)
       \<longrightarrow> nextStartTimeRef s \<le> nextStartTimeRef (run decodeAudioData throws evs s))
   \<and> ((\<forall>e \<in> set evs. \<not> isInterruption e)
       \<longrightarrow> nextStartTimeRef (startSession granted initial)
             \<le> nextStartTimeRef (run decodeAudioData throws evs (startSession granted initial)))"
proof (intro conjI impI)
  have d: "0 \<le> duration buf" by (rule duration_nonneg)
  show "nextStartTimeRef s \<le> nextStartTimeRef (anchorCursor now s)"
    by (simp add: anchorCursor_def)
  from d show "nextStartTimeRef s \<le> nextStartTimeRef (startSource buf s)"
    by (simp add: startSource_cursor)
  from d show "nextStartTimeRef s \<le> nextStartTimeRef (startSource buf (anchorCursor now s))"
    by (simp add: startSource_cursor anchorCursor_def add_increasing2)
next
  show "nextStartTimeRef (interrupt s) = 0" by (simp add: interrupt_def)
next
  show "nextStartTimeRef s \<le> nextStartTimeRef (step decodeAudioData throws e s)
       \<or> interrupts s e \<and> nextStartTimeRef (step decodeAudioData throws e s) = 0"
    by (rule step_cursor)
next
  assume "(\<forall>m \<in> set (awaiting s). \<not> interrupted m) \<and> (\<forall>e \<in> set evs. \<not> isInterruption e)"
  then show "nextStartTimeRef s \<le> nextStartTimeRef (run decodeAudioData throws evs s)"
    by (simp add: run_cursor)
next
  assume "\<forall>e \<in> set evs. \<not> isInterruption e"
  moreover have "\<forall>m \<in> set (awaiting (startSession granted initial)). \<not> interrupted m"
    by (simp add: startSession_def initial_def Let_def)
  ultimately show "nextStartTimeRef (startSession granted initial)
             \<le> nextStartTimeRef (run decodeAudioData throws evs (startSession granted initial))"
    by (simp add: run_cursor)
qed

theorem cursor_monotone_except_interrupt_witness:
  "\<not> isInterruption OnOpen
   \<and> \<not> isInterruption (OnMessage 3 \<lparr> inlineData = Some ''AAAA'', interrupted = False \<rparr>)
   \<and> \<not> isInterruption (Decoded 0)
   \<and> nextStartTimeRef (startSession True initial)
       \<le> nextStartTimeRef (run (\<lambda>x. Inr (Abs_AudioBuffer (24000, 24000))) (\<lambda>r. False)
            [OnOpen, OnMessage 3 \<lparr> inlineData = Some ''AAAA'', interrupted = False \<rparr>, Decoded 0]
            (startSession True initial))
   \<and> nextStartTimeRef (run (\<lambda>x. Inr (Abs_AudioBuffer (24000, 24000))) (\<lambda>r. False)
            [OnOpen, OnMessage 3 \<lparr> inlineData = Some ''AAAA'', interrupted = False \<rparr>, Decoded 0]
            (startSession True initial)) = 4"
proof -
  have v: "nextStartTimeRef (run (\<lambda>x. Inr (Abs_AudioBuffer (24000, 24000))) (\<lambda>r. False)
            [OnOpen, OnMessage 3 \<lparr> inlineData = Some ''AAAA'', interrupted = False \<rparr>, Decoded 0]
            (startSession True initial)) = 4"
    by (simp add: eval_defs)
  from cursor_monotone_except_interrupt [where granted = True
      and evs = "[OnOpen, OnMessage 3 \<lparr> inlineData = Some ''AAAA'', interrupted = False \<rparr>, Decoded 0]"
      and decodeAudioData = "\<lambda>x. Inr (Abs_AudioBuffer (24000, 24000))"
      and throws = "\<lambda>r. False"] v
  show ?thesis by simp
qed

text \<open>
  C6. In every run of a started session in which the transport's open callback has not yet
  fired, no frame has been sent to the transport, none is queued for sending, and the audio
  callback is not installed.
\<close>

theorem no_send_before_open:
  "OnOpen \<notin> set evs \<longrightarrow>
     sent (run decodeAudioData throws evs (startSession granted initial)) = []
     \<and> pendingSends (run decodeAudioData throws evs (startSession granted initial)) = []
     \<and> \<not> processorInstalled (run decodeAudioData throws evs (startSession granted initial))"
  using run_quiet [of evs "startSession granted initial" decodeAudioData throws]
    startSession_quiet [of granted]
  by (simp add: quiet_def)

theorem no_send_before_open_witness:
  "OnOpen \<notin> set [Resolved, AudioProcess [1, -1], ToggleMute, AudioProcess [1 / 2]]
   \<and> sent (run (\<lambda>d. Inl MalformedAudioError) (\<lambda>r. False)
             [Resolved, AudioProcess [1, -1], ToggleMute, AudioProcess [1 / 2]]
             (startSession True initial)) = []
   \<and> sent (run (\<lambda>d. Inl MalformedAudioError) (\<lambda>r. False)
             [Resolved, OnOpen, AudioProcess [1, -1]]
             (startSession True initial)) = [CreatePcmBlob [1, -1]]"
proof -
  have "sent (run (\<lambda>d. Inl MalformedAudioError) (\<lambda>r. False)
             [Resolved, OnOpen, AudioProcess [1, -1]]
             (startSession True initial)) = [CreatePcmBlob [1, -1]]"
    by (simp add: step_def resolved_def onopen_def onaudioprocess_def thenSend_def sent_def
          startSession_def initial_def Let_def)
  then show ?thesis
    using no_send_before_open [where evs = "[Resolved, AudioProcess [1, -1], ToggleMute, AudioProcess [1 / 2]]"
        and decodeAudioData = "\<lambda>d. Inl MalformedAudioError" and throws = "\<lambda>r. False"
        and granted = True]
    by simp
qed




text \<open>
  C8, as stated, fails on the codec as the specification defines it: encoding multiplies by
  32767 and decoding divides by 32768. The sample \<open>131069 / 131072\<close> lies in \<open>[-1, 1]\<close>, is
  encoded as 32766 (bytes FE 7F) and decoded as \<open>16383 / 16384\<close>, which is
  \<open>5 / 131072\<close> away, more than \<open>1 / 32768\<close>.
\<close>

theorem pcm16_roundtrip_bound_counterexample:
  "- 1 \<le> (131069 / 131072 :: real) \<and> (131069 / 131072 :: real) \<le> 1
   \<and> frameBytes (encodePcm16 \<lparr> samples = [131069 / 131072], rate = 16000, channels = 1 \<rparr>)
       = [0xFE, 0x7F]
   \<and> decodePcm16 (frameBytes (encodePcm16 \<lparr> samples = [131069 / 131072], rate = 16000, channels = 1 \<rparr>))
        16000 1
       = Inr \<lparr> samples = [16383 / 16384], rate = 16000, channels = 1 \<rparr>
   \<and> 1 / 32768 < \<bar>131069 / 131072 - 16383 / 16384 :: real\<bar>"
proof -
  have q: "quantize (131069 / 131072) = 32766"
    by (simp add: quantize_def clamp_def round_def)
  have e: "frameBytes (encodePcm16 \<lparr> samples = [131069 / 131072], rate = 16000, channels = 1 \<rparr>)
       = [0xFE, 0x7F]"
    by (simp add: encodePcm16_def q int16le_def Let_def drop_bit_eq_div)
  have "decodePcm16 [0xFE, 0x7F] 16000 1
       = Inr \<lparr> samples = [16383 / 16384], rate = 16000, channels = 1 \<rparr>"
    by (simp add: decodePcm16_def word_cat_eq push_bit_eq_mult)
  with e show ?thesis by simp
qed

text \<open>
  C8, amended. For every buffer whose samples lie in \<open>[-1, 1]\<close> and whose number of samples
  is a multiple of its channel count, decoding the encoding at the buffer's rate and
  channel count succeeds and gives a buffer of the same rate, channel count and length
  whose samples differ from the original ones by at most \<open>3 / 65536\<close>, that is one and a
  half steps of \<open>1 / 32768\<close>: half a step from rounding and up to one step from the two
  different scale factors.
\<close>

theorem pcm16_roundtrip:
  "(\<forall>s \<in> set (samples b). -1 \<le> s \<and> s \<le> 1) \<and> length (samples b) mod channels b = 0 \<longrightarrow>
     (\<exists>b'. decodePcm16 (frameBytes (encodePcm16 b)) (rate b) (channels b) = Inr b'
        \<and> rate b' = rate b \<and> channels b' = channels b
        \<and> length (samples b') = length (samples b)
        \<and> (\<forall>i < length (samples b). \<bar>samples b ! i - samples b' ! i\<bar> \<le> 3 / 65536))"
proof
  assume a: "(\<forall>s \<in> set (samples b). -1 \<le> s \<and> s \<le> 1) \<and> length (samples b) mod channels b = 0"
  let ?b' = "\<lparr> samples = map (\<lambda>s. real_of_int (quantize s) / 32768) (samples b),
             rate = rate b, channels = channels b \<rparr>"
  have d: "decodePcm16 (frameBytes (encodePcm16 b)) (rate b) (channels b) = Inr ?b'"
    using a by (simp add: decode_encode)
  have "\<bar>samples b ! i - samples ?b' ! i\<bar> \<le> 3 / 65536" if "i < length (samples b)" for i
  proof -
    have "samples b ! i \<in> set (samples b)" using that by simp
    with a have "-1 \<le> samples b ! i" "samples b ! i \<le> 1" by auto
    then have "\<bar>samples b ! i - real_of_int (quantize (samples b ! i)) / 32768\<bar> \<le> 3 / 65536"
      by (rule quantize_error)
    moreover have "samples ?b' ! i = real_of_int (quantize (samples b ! i)) / 32768"
      using that by simp
    ultimately show ?thesis by (simp only:)
  qed
  with d show "\<exists>b'. decodePcm16 (frameBytes (encodePcm16 b)) (rate b) (channels b) = Inr b'
        \<and> rate b' = rate b \<and> channels b' = channels b
        \<and> length (samples b') = length (samples b)
        \<and> (\<forall>i < length (samples b). \<bar>samples b ! i - samples b' ! i\<bar> \<le> 3 / 65536)"
    by (intro exI [of _ ?b']) simp
qed

theorem pcm16_roundtrip_witness:
  "set [1 / 2, - 1 / 2, 1 / 4 :: real] \<subseteq> {- 1 .. 1}
   \<and> length [1 / 2, - 1 / 2, 1 / 4 :: real] mod 1 = 0
   \<and> (\<exists>b'. decodePcm16 (frameBytes (encodePcm16
                 \<lparr> samples = [1 / 2, - 1 / 2, 1 / 4], rate = 16000, channels = 1 \<rparr>)) 16000 1 = Inr b'
        \<and> length (samples b') = 3
        \<and> \<bar>1 / 2 - samples b' ! 0\<bar> \<le> 3 / 65536)"
  using pcm16_roundtrip [where b = "\<lparr> samples = [1 / 2, - 1 / 2, 1 / 4], rate = 16000, channels = 1 \<rparr>"]
  by auto

text \<open>
  C9. In every state a started session can reach, the mute flag the audio callback reads is
  the one captured at mount, \<open>False\<close>. So every capture tick delivered to the installed
  callback publishes a loudness value and hands its frame to the transport (sent at once
  when the connect promise is fulfilled, queued on it otherwise), whatever the UI's mute
  state. Removing a mute toggle from any run changes neither the calls the component makes
  nor the frames it has queued.
\<close>

theorem mute_toggle_has_no_effect:
  "capturedIsMuted (run decodeAudioData throws evs (startSession granted initial)) = False
   \<and> (processorInstalled (run decodeAudioData throws evs (startSession granted initial)) \<longrightarrow>
        effects (step decodeAudioData throws (AudioProcess inputData)
                  (run decodeAudioData throws evs (startSession granted initial)))
          = effects (run decodeAudioData throws evs (startSession granted initial))
              @ SetVolume (volumeOf inputData)
              # (if sessionPromise (run decodeAudioData throws evs (startSession granted initial))
                      = Some Fulfilled
                 then [SendRealtimeInput (CreatePcmBlob inputData)] else [])
        \<and> pendingSends (step decodeAudioData throws (AudioProcess inputData)
                  (run decodeAudioData throws evs (startSession granted initial)))
          = pendingSends (run decodeAudioData throws evs (startSession granted initial))
              @ (if sessionPromise (run decodeAudioData throws evs (startSession granted initial))
                      = Some Fulfilled
                 then [] else [CreatePcmBlob inputData]))
   \<and> effects (run decodeAudioData throws (evs1 @ ToggleMute # evs2) s)
       = effects (run decodeAudioData throws (evs1 @ evs2) s)
   \<and> pendingSends (run decodeAudioData throws (evs1 @ ToggleMute # evs2) s)
       = pendingSends (run decodeAudioData throws (evs1 @ evs2) s)"
proof -
  let ?s = "run decodeAudioData throws evs (startSession granted initial)"
  have c: "capturedIsMuted ?s = False"
    by (simp add: run_captured startSession_captured)
  then have "\<not> capturedIsMuted ?s" by simp
  from onaudioprocess_unmuted [OF this, of inputData] c run_toggle [of decodeAudioData throws evs1 evs2 s]
  show ?thesis
    by (simp add: step_def)
qed

theorem mute_toggle_has_no_effect_witness:
  "isMuted (run (\<lambda>d. Inl MalformedAudioError) (\<lambda>r. False) [OnOpen, Resolved, ToggleMute]
             (startSession True initial))
   \<and> processorInstalled (run (\<lambda>d. Inl MalformedAudioError) (\<lambda>r. False) [OnOpen, Resolved, ToggleMute]
             (startSession True initial))
   \<and> effects (step (\<lambda>d. Inl MalformedAudioError) (\<lambda>r. False) (AudioProcess [1, -1])
               (run (\<lambda>d. Inl MalformedAudioError) (\<lambda>r. False) [OnOpen, Resolved, ToggleMute]
                 (startSession True initial)))
       = [SetVolume (volumeOf [1, -1]), SendRealtimeInput (CreatePcmBlob [1, -1])]"
proof -
  let ?s = "run (\<lambda>d. Inl MalformedAudioError) (\<lambda>r. False) [OnOpen, Resolved, ToggleMute]
             (startSession True initial)"
  have pre: "isMuted ?s" "processorInstalled ?s" "effects ?s = []" "sessionPromise ?s = Some Fulfilled"
    by (simp_all add: step_def onopen_def resolved_def startSession_def initial_def Let_def)
  from mute_toggle_has_no_effect [where evs = "[OnOpen, Resolved, ToggleMute]" and granted = True
      and decodeAudioData = "\<lambda>d. Inl MalformedAudioError" and throws = "\<lambda>r. False"
      and inputData = "[1, -1]"] pre
  show ?thesis by simp
qed

text \<open>
  C10, as stated, fails: the handler first tests \<open>mounted\<close>. After a buffer has been
  scheduled and the component has unmounted, a message with the interruption flag returns
  at once; the active set still holds the node and the cursor stays at 2.
\<close>

theorem interrupted_message_unmounted_counterexample:
  "interrupted \<lparr> inlineData = None, interrupted = True \<rparr>
   \<and> handled (\<lambda>x. Inr (Abs_AudioBuffer (24000, 24000))) 3
        \<lparr> inlineData = None, interrupted = True \<rparr>
        (run (\<lambda>x. Inr (Abs_AudioBuffer (24000, 24000))) (\<lambda>r. False)
          [OnOpen, Resolved, OnMessage 1 \<lparr> inlineData = Some ''AAAA'', interrupted = False \<rparr>,
           Decoded 0, Unmount]
          (startSession True initial))
     = Inr (run (\<lambda>x. Inr (Abs_AudioBuffer (24000, 24000))) (\<lambda>r. False)
          [OnOpen, Resolved, OnMessage 1 \<lparr> inlineData = Some ''AAAA'', interrupted = False \<rparr>,
           Decoded 0, Unmount]
          (startSession True initial))
   \<and> sourcesRef (run (\<lambda>x. Inr (Abs_AudioBuffer (24000, 24000))) (\<lambda>r. False)
          [OnOpen, Resolved, OnMessage 1 \<lparr> inlineData = Some ''AAAA'', interrupted = False \<rparr>,
           Decoded 0, Unmount]
          (startSession True initial)) = [0]
   \<and> nextStartTimeRef (run (\<lambda>x. Inr (Abs_AudioBuffer (24000, 24000))) (\<lambda>r. False)
          [OnOpen, Resolved, OnMessage 1 \<lparr> inlineData = Some ''AAAA'', interrupted = False \<rparr>,
           Decoded 0, Unmount]
          (startSession True initial)) = 2"
proof -
  let ?d = "\<lambda>x::string. (Inr (Abs_AudioBuffer (24000, 24000)) :: error + AudioBuffer)"
  let ?s3 = "run ?d (\<lambda>r. False)
          [OnOpen, Resolved, OnMessage 1 \<lparr> inlineData = Some ''AAAA'', interrupted = False \<rparr>, Decoded 0]
          (startSession True initial)"
  let ?s4 = "run ?d (\<lambda>r. False)
          [OnOpen, Resolved, OnMessage 1 \<lparr> inlineData = Some ''AAAA'', interrupted = False \<rparr>,
           Decoded 0, Unmount]
          (startSession True initial)"
  have s4: "?s4 = stateOf (disconnect (\<lambda>r. False) (?s3\<lparr> mounted := False \<rparr>))"
    by (simp add: step_def)
  have s3: "sourcesRef ?s3 = [0]" "nextStartTimeRef ?s3 = 2"
    by (simp_all add: eval_defs)
  have m: "\<not> mounted ?s4"
    unfolding s4 by simp
  have "sourcesRef ?s4 = [0]" "nextStartTimeRef ?s4 = 2"
    unfolding s4 using s3 by simp_all
  moreover have "handled ?d 3 \<lparr> inlineData = None, interrupted = True \<rparr> ?s4 = Inr ?s4"
    using m by (rule handled_unmounted)
  ultimately show ?thesis by simp
qed

text \<open>
  C10, amended. While the component is mounted: a handler that runs to completion on a
  message with the interruption flag leaves the active set empty and the cursor at 0. When
  that message also carries audio that decodes, the buffer is scheduled first and the
  interruption follows, so its node is in the store, already stopped. A handler of an
  unmounted component returns the state as it is. The same holds part by part when other
  events run while the decode is awaited: a flagged message without audio is flushed in the
  first part, and a resumed handler of a flagged message ends with the set empty and the
  cursor at 0, its node stopped.
\<close>

theorem interrupted_message_flushes:
  "(mounted s \<and> interrupted msg \<and> handled decodeAudioData now msg s = Inr s'
      \<longrightarrow> sourcesRef s' = [] \<and> nextStartTimeRef s' = 0)
   \<and> (mounted s \<and> interrupted msg \<and> truthy (inlineData msg) \<and> outputAudioContextRef s \<noteq> None
        \<and> decodeAudioData (the (inlineData msg)) = Inr buf
      \<longrightarrow> handled decodeAudioData now msg s
            = Inr (interrupt (startSource buf (anchorCursor now s)))
        \<and> nodes (interrupt (startSource buf (anchorCursor now s))) ! length (nodes s)
            = \<lparr> buffer = buf, startedAt = max (nextStartTimeRef s) now, stopped = True \<rparr>)
   \<and> (\<not> mounted s \<longrightarrow> handled decodeAudioData now msg s = Inr s \<and> onmessage now msg s = s)
   \<and> (mounted s \<and> interrupted msg
        \<and> \<not> (truthy (inlineData msg) \<and> outputAudioContextRef s \<noteq> None)
      \<longrightarrow> sourcesRef (onmessage now msg s) = [] \<and> nextStartTimeRef (onmessage now msg s) = 0)
   \<and> (k < length (awaiting s) \<and> interrupted (awaiting s ! k)
        \<and> decoded decodeAudioData k s = Inr s''
      \<longrightarrow> sourcesRef s'' = [] \<and> nextStartTimeRef s'' = 0)
   \<and> (k < length (awaiting s) \<and> interrupted (awaiting s ! k)
        \<and> decodeAudioData (the (inlineData (awaiting s ! k))) = Inr buf
      \<longrightarrow> \<not> isl (decoded decodeAudioData k s)
        \<and> nodes (stateOf (decoded decodeAudioData k s)) ! length (nodes s)
            = \<lparr> buffer = buf, startedAt = nextStartTimeRef s, stopped = True \<rparr>)"
proof (intro conjI impI)
  assume "mounted s \<and> interrupted msg \<and> handled decodeAudioData now msg s = Inr s'"
  then show "sourcesRef s' = []" "nextStartTimeRef s' = 0"
    using handled_interrupted_completes [of s msg decodeAudioData now s'] by simp_all
next
  assume a: "mounted s \<and> interrupted msg \<and> truthy (inlineData msg) \<and> outputAudioContextRef s \<noteq> None
        \<and> decodeAudioData (the (inlineData msg)) = Inr buf"
  then show "handled decodeAudioData now msg s
            = Inr (interrupt (startSource buf (anchorCursor now s)))"
    by (simp add: handled_suspended afterDecode_ok)
  have "nodes (interrupt (startSource buf (anchorCursor now s))) ! length (nodes (anchorCursor now s))
            = \<lparr> buffer = buf, startedAt = nextStartTimeRef (anchorCursor now s), stopped = True \<rparr>"
    by (rule interrupt_new_node)
  then show "nodes (interrupt (startSource buf (anchorCursor now s))) ! length (nodes s)
            = \<lparr> buffer = buf, startedAt = max (nextStartTimeRef s) now, stopped = True \<rparr>"
    by (simp add: anchorCursor_def)
next
  assume "\<not> mounted s"
  then show "handled decodeAudioData now msg s = Inr s" "onmessage now msg s = s"
    by (simp_all add: handled_unmounted onmessage_unmounted)
next
  assume "mounted s \<and> interrupted msg
        \<and> \<not> (truthy (inlineData msg) \<and> outputAudioContextRef s \<noteq> None)"
  then show "sourcesRef (onmessage now msg s) = []" "nextStartTimeRef (onmessage now msg s) = 0"
    by (auto simp: onmessage_no_audio interrupt_def)
next
  assume "k < length (awaiting s) \<and> interrupted (awaiting s ! k)
        \<and> decoded decodeAudioData k s = Inr s''"
  then show "sourcesRef s'' = []" "nextStartTimeRef s'' = 0"
    using decoded_interrupted_completes [of k s decodeAudioData s''] by simp_all
next
  assume a: "k < length (awaiting s) \<and> interrupted (awaiting s ! k)
        \<and> decodeAudioData (the (inlineData (awaiting s ! k))) = Inr buf"
  let ?s1 = "s\<lparr> awaiting := take k (awaiting s) @ drop (Suc k) (awaiting s) \<rparr>"
  from a have e: "decoded decodeAudioData k s = Inr (interrupt (startSource buf ?s1))"
    by (simp add: decoded_flagged)
  then show "\<not> isl (decoded decodeAudioData k s)" by simp
  have "nodes (interrupt (startSource buf ?s1)) ! length (nodes ?s1)
      = \<lparr> buffer = buf, startedAt = nextStartTimeRef ?s1, stopped = True \<rparr>"
    by (rule interrupt_new_node)
  then show "nodes (stateOf (decoded decodeAudioData k s)) ! length (nodes s)
            = \<lparr> buffer = buf, startedAt = nextStartTimeRef s, stopped = True \<rparr>"
    by (simp add: e stateOf_def)
qed

theorem interrupted_message_flushes_witness:
  "mounted (startSession True initial)
   \<and> interrupted \<lparr> inlineData = Some ''AAAA'', interrupted = True \<rparr>
   \<and> truthy (inlineData \<lparr> inlineData = Some ''AAAA'', interrupted = True \<rparr>)
   \<and> outputAudioContextRef (startSession True initial) \<noteq> None
   \<and> handled (\<lambda>x. Inr (Abs_AudioBuffer (24000, 24000))) 1
        \<lparr> inlineData = Some ''AAAA'', interrupted = True \<rparr> (startSession True initial)
      = Inr (interrupt (startSource (Abs_AudioBuffer (24000, 24000))
               (anchorCursor 1 (startSession True initial))))
   \<and> sourcesRef (interrupt (startSource (Abs_AudioBuffer (24000, 24000))
               (anchorCursor 1 (startSession True initial)))) = []
   \<and> nextStartTimeRef (interrupt (startSource (Abs_AudioBuffer (24000, 24000))
               (anchorCursor 1 (startSession True initial)))) = 0
   \<and> nodes (interrupt (startSource (Abs_AudioBuffer (24000, 24000))
               (anchorCursor 1 (startSession True initial)))) ! 0
      = \<lparr> buffer = Abs_AudioBuffer (24000, 24000), startedAt = 1, stopped = True \<rparr>"
proof -
  let ?s = "startSession True initial"
  let ?msg = "\<lparr> inlineData = Some ''AAAA'', interrupted = True \<rparr>"
  let ?buf = "Abs_AudioBuffer (24000, 24000)"
  have pre: "mounted ?s" "interrupted ?msg" "truthy (inlineData ?msg)"
    "outputAudioContextRef ?s \<noteq> None" "length (nodes ?s) = 0" "nextStartTimeRef ?s = 0"
    by (simp_all add: startSession_def initial_def truthy_def)
  note c = interrupted_message_flushes [where s = ?s and msg = ?msg and buf = ?buf and now = 1
      and decodeAudioData = "\<lambda>x. Inr ?buf"
      and s' = "interrupt (startSource ?buf (anchorCursor 1 ?s))"]
  from c pre show ?thesis by simp
qed

end
